theory Spec2Isabelle
  imports Complex_Main "HOL-Library.Multiset"
begin

section \<open>The random source\<close>

text \<open>
  Every random decision of the game is a call of \<^verbatim>\<open>Math.random()\<close>, which returns a
  number \<open>r\<close> with \<open>0 \<le> r < 1\<close>. A draw is kept as a fraction whose numerator is
  smaller than its denominator: \<open>Draw a g\<close> is the number \<open>a / (a + g + 1)\<close>, so every
  value of the type lies in the half-open unit interval and every rational of that
  interval is a draw. The source of randomness is an endless sequence of draws; a piece
  of code reads it from a position onwards and reports the position it stopped at.
\<close>

datatype random_value = Draw nat nat

fun rnd_val :: "random_value \<Rightarrow> rat" where
  "rnd_val (Draw a g) = of_nat a / of_nat (a + g + 1)"

type_synonym random_source = "nat \<Rightarrow> random_value"

text \<open>\<^verbatim>\<open>Math.floor(Math.random() * n)\<close>\<close>

definition floor_random :: "random_value \<Rightarrow> nat \<Rightarrow> nat" where
  "floor_random r n = nat \<lfloor>rnd_val r * of_nat n\<rfloor>"

text \<open>
  The Fisher-Yates loop that the source writes out four times
  (\<^verbatim>\<open>for (let i = array.length - 1; i > 0; i--)\<close>, swapping \<open>array[i]\<close> with
  \<open>array[j]\<close> for \<open>j = Math.floor(Math.random() * (i + 1))\<close>). The first argument is the
  loop variable \<open>i\<close>.
\<close>

primrec shuffleLoop :: "nat \<Rightarrow> 'a list \<Rightarrow> random_source \<Rightarrow> nat \<Rightarrow> 'a list \<times> nat" where
  "shuffleLoop 0 array rs pos = (array, pos)"
| "shuffleLoop (Suc k) array rs pos =
     (let i = Suc k; j = floor_random (rs pos) (i + 1)
      in shuffleLoop k (array[i := array ! j, j := array ! i]) rs (pos + 1))"

definition shuffleArray :: "'a list \<Rightarrow> random_source \<Rightarrow> nat \<Rightarrow> 'a list \<times> nat" where
  "shuffleArray array rs pos = shuffleLoop (length array - 1) array rs pos"

section \<open>JavaScript arrays and maps\<close>

text \<open>\<^verbatim>\<open>array.indexOf(x)\<close>: the first position of \<open>x\<close>, or \<open>-1\<close>.\<close>

fun indexOfFrom :: "'a list \<Rightarrow> 'a \<Rightarrow> int \<Rightarrow> int" where
  "indexOfFrom [] x i = - 1"
| "indexOfFrom (y # ys) x i = (if y = x then i else indexOfFrom ys x (i + 1))"

definition indexOf :: "'a list \<Rightarrow> 'a \<Rightarrow> int" where
  "indexOf xs x = indexOfFrom xs x 0"

text \<open>\<^verbatim>\<open>array[i]\<close>: the element, or \<^verbatim>\<open>undefined\<close> (\<open>None\<close>) outside the array.\<close>

definition elemAt :: "'a list \<Rightarrow> int \<Rightarrow> 'a option" where
  "elemAt xs i = (if 0 \<le> i \<and> i < int (length xs) then Some (xs ! nat i) else None)"

text \<open>
  A \<^verbatim>\<open>Map\<close> keeps its entries in insertion order; \<^verbatim>\<open>set\<close> on a key that is
  present replaces the value where the entry stands.
\<close>

fun mapSet :: "('k \<times> 'v) list \<Rightarrow> 'k \<Rightarrow> 'v \<Rightarrow> ('k \<times> 'v) list" where
  "mapSet [] k v = [(k, v)]"
| "mapSet ((k', v') # m) k v = (if k' = k then (k, v) # m else (k', v') # mapSet m k v)"

section \<open>Players and the role manager (js/roleManager.js)\<close>

datatype role = Good | Bad

datatype team = GoodTeam | BadTeam

datatype error =
    InvalidPlayerCount  \<comment> \<open>\<^verbatim>\<open>Error('Player count must be between 3 and 8')\<close>\<close>
  | TypeError           \<comment> \<open>a property read or written on \<^verbatim>\<open>undefined\<close>\<close>
  | TooFewPlayers       \<comment> \<open>\<^verbatim>\<open>Error('This challenge requires a minimum of 3 players')\<close>\<close>
  | TooManyPlayers      \<comment> \<open>\<^verbatim>\<open>Error('This challenge supports a maximum of 8 players')\<close>\<close>
  | TeamConversionFailed

text \<open>The entries of \<^verbatim>\<open>playersData\<close>, as the set-up screens hand them over.\<close>

record playerData =
  name :: string
  color :: string
  colorName :: string

text \<open>
  A player object. \<open>index\<close> is the position at creation and never changes;
  \<open>partnerId\<close> is \<^verbatim>\<open>null\<close> (\<open>None\<close>) or the \<open>index\<close> of the partner; \<open>team\<close> is
  absent until the duel adds it. Objects are compared by identity in the source; the
  players of one game differ in \<open>index\<close>, so equality of records is identity there.
\<close>

record player = playerData +
  index :: nat
  role :: role
  hasReceived :: bool
  partnerId :: "nat option"
  team :: "team option"

record roleManager =
  rm_players :: "player list"
  rm_currentPlayerIndex :: nat
  isAssigningRoles :: bool
  badPlayersKnowEachOther :: "bool option"

definition newPlayer :: "nat \<Rightarrow> playerData \<Rightarrow> player" where
  "newPlayer i d =
     \<lparr>name = name d, color = color d, colorName = colorName d,
      index = i, role = Good, hasReceived = False, partnerId = None, team = None\<rparr>"

text \<open>The \<^verbatim>\<open>switch (playerCount)\<close>: the number of Bad players and whether they know each other.\<close>

definition roleDistribution :: "nat \<Rightarrow> nat \<times> bool" where
  "roleDistribution playerCount =
     (if playerCount = 3 then (1, False)
      else if playerCount = 4 then (1, False)
      else if playerCount = 5 then (2, False)
      else if playerCount = 6 then (2, True)
      else if playerCount = 7 then (2, True)
      else if playerCount = 8 then (3, False)
      else (0, False))"

text \<open>
  \<^verbatim>\<open>while (badPlayerIndices.length < badPlayerCount)\<close>: draw an index, keep it when it
  is new. The loop has no bound of its own: it ends when the draws have produced
  \<open>badPlayerCount\<close> distinct indices, and on a source that never does it runs forever
  (\<open>None\<close>).
\<close>

partial_function (option) selectBadPlayers ::
  "random_source \<Rightarrow> nat \<Rightarrow> nat \<Rightarrow> nat list \<Rightarrow> nat \<Rightarrow> (nat list \<times> nat) option" where
  "selectBadPlayers rs playerCount badPlayerCount badPlayerIndices pos =
     (if length badPlayerIndices < badPlayerCount then
        (let randomIndex = floor_random (rs pos) playerCount
         in if randomIndex \<notin> set badPlayerIndices
            then selectBadPlayers rs playerCount badPlayerCount
                   (badPlayerIndices @ [randomIndex]) (pos + 1)
            else selectBadPlayers rs playerCount badPlayerCount badPlayerIndices (pos + 1))
      else Some (badPlayerIndices, pos))"

text \<open>
  \<^verbatim>\<open>badPlayerIndices.forEach(index => { this.players[index].role = 'Bad'; })\<close>. Writing
  a property of an element that does not exist throws; the players at that moment come
  back with the error.
\<close>

fun assignBadRoles :: "player list \<Rightarrow> nat list \<Rightarrow> (error \<times> player list) + player list" where
  "assignBadRoles ps [] = Inr ps"
| "assignBadRoles ps (i # is) =
     (if i < length ps then assignBadRoles (ps[i := (ps ! i)\<lparr>role := Bad\<rparr>]) is
      else Inl (TypeError, ps))"

text \<open>The partner links of the 6 and 7 player games.\<close>

definition setPartners ::
  "bool \<Rightarrow> nat list \<Rightarrow> player list \<Rightarrow> (error \<times> player list) + player list" where
  "setPartners knowEachOther badPlayerIndices ps =
     (if knowEachOther \<and> length badPlayerIndices = 2 then
        (let a = badPlayerIndices ! 0; b = badPlayerIndices ! 1
         in if \<not> a < length ps then Inl (TypeError, ps)
            else let ps1 = ps[a := (ps ! a)\<lparr>partnerId := Some b\<rparr>]
                 in if \<not> b < length ps1 then Inl (TypeError, ps1)
                    else Inr (ps1[b := (ps1 ! b)\<lparr>partnerId := Some a\<rparr>]))
      else Inr ps)"

text \<open>
  \<^verbatim>\<open>generatePlayerRoles(playersData)\<close>. The new players are pushed onto
  \<^verbatim>\<open>this.players\<close>. A thrown error comes back with the manager as the throw leaves it;
  a normal return gives the manager and the position reached in the random source.
\<close>

definition generatePlayerRoles ::
  "roleManager \<Rightarrow> playerData list \<Rightarrow> random_source \<Rightarrow> nat \<Rightarrow>
   ((error \<times> roleManager) + (roleManager \<times> nat)) option" where
  "generatePlayerRoles rm playersData rs pos =
     (let playerCount = length playersData
      in if playerCount < 3 \<or> playerCount > 8 then Some (Inl (InvalidPlayerCount, rm))
         else
           let created = rm_players rm @ map (\<lambda>i. newPlayer i (playersData ! i)) [0..<playerCount];
               badPlayerCount = fst (roleDistribution playerCount);
               knowEachOther = snd (roleDistribution playerCount)
           in case selectBadPlayers rs playerCount badPlayerCount [] pos of
                None \<Rightarrow> None
              | Some (badPlayerIndices, pos1) \<Rightarrow>
                  (case assignBadRoles created badPlayerIndices of
                     Inl (e, ps) \<Rightarrow> Some (Inl (e, rm\<lparr>rm_players := ps\<rparr>))
                   | Inr withRoles \<Rightarrow>
                       (case setPartners knowEachOther badPlayerIndices withRoles of
                          Inl (e, ps) \<Rightarrow> Some (Inl (e, rm\<lparr>rm_players := ps\<rparr>))
                        | Inr linked \<Rightarrow>
                            (let (shuffled, pos2) = shuffleArray linked rs pos1
                             in Some (Inr (rm\<lparr>rm_players := shuffled,
                                              badPlayersKnowEachOther := Some knowEachOther\<rparr>,
                                           pos2))))))"

text \<open>
  \<^verbatim>\<open>startRoleAssignment(playersData)\<close> up to the call of the instruction screens: the
  state is reset, then the roles are generated.
\<close>

definition startRoleAssignment ::
  "roleManager \<Rightarrow> playerData list \<Rightarrow> random_source \<Rightarrow> nat \<Rightarrow>
   ((error \<times> roleManager) + (roleManager \<times> nat)) option" where
  "startRoleAssignment rm playersData rs pos =
     generatePlayerRoles
       (rm\<lparr>rm_players := [], rm_currentPlayerIndex := 0, isAssigningRoles := True\<rparr>)
       playersData rs pos"

text \<open>\<^verbatim>\<open>getBadPlayers()\<close>, \<^verbatim>\<open>getGoodPlayers()\<close> and \<^verbatim>\<open>getBadPlayerPartners()\<close>.\<close>

definition getBadPlayers :: "player list \<Rightarrow> player list" where
  "getBadPlayers ps = filter (\<lambda>p. role p = Bad) ps"

definition getGoodPlayers :: "player list \<Rightarrow> player list" where
  "getGoodPlayers ps = filter (\<lambda>p. role p = Good) ps"

definition getBadPlayerPartners :: "player list \<Rightarrow> player list" where
  "getBadPlayerPartners ps = filter (\<lambda>p. role p = Bad \<and> partnerId p \<noteq> None) ps"

text \<open>
  The partner of a player, as the reveal looks it up:
  \<^verbatim>\<open>this.players.find(p => p.index === player.partnerId)\<close>.
\<close>

definition partnerOf :: "player list \<Rightarrow> player \<Rightarrow> player option" where
  "partnerOf ps p = (case partnerId p of None \<Rightarrow> None | Some i \<Rightarrow> find (\<lambda>q. index q = i) ps)"


section \<open>The suspicion vote (class FirstImpressionsChallenge)\<close>

text \<open>
  \<open>fi_votes\<close> is the \<^verbatim>\<open>Map\<close> from the position of the voter in \<^verbatim>\<open>this.players\<close>
  to the position of the suspect, in insertion order.
\<close>

record firstImpressions =
  fi_players :: "player list"
  fi_votes :: "(int \<times> nat) list"
  fi_currentPlayerIndex :: nat
  fi_votingComplete :: bool

text \<open>
  \<^verbatim>\<open>init()\<close>: the players are the role manager's array, shuffled in place; the votes
  are cleared.
\<close>

definition fi_init :: "player list \<Rightarrow> random_source \<Rightarrow> nat \<Rightarrow> firstImpressions \<times> nat" where
  "fi_init secretRoles rs pos =
     (let (shuffled, pos1) = shuffleArray secretRoles rs pos
      in (\<lparr>fi_players = shuffled, fi_votes = [], fi_currentPlayerIndex = 0,
            fi_votingComplete = False\<rparr>, pos1))"

text \<open>
  \<^verbatim>\<open>showVotingInterface(votingPlayer)\<close> renders one clickable option for every position
  of \<^verbatim>\<open>this.players\<close> except that of the voting player; the option carries the
  position in \<^verbatim>\<open>data-player-index\<close>.
\<close>

definition playerOptions :: "player list \<Rightarrow> player \<Rightarrow> nat list" where
  "playerOptions ps votingPlayer =
     filter (\<lambda>originalIndex. int originalIndex \<noteq> indexOf ps votingPlayer) [0..<length ps]"

text \<open>
  \<^verbatim>\<open>updateVotesDisplay()\<close> renders every recorded vote; for each it reads the colour
  and the name of \<^verbatim>\<open>this.players[voterIndex]\<close> and of \<^verbatim>\<open>this.players[suspectIndex]\<close>
  and throws when one of the two is \<^verbatim>\<open>undefined\<close> (a voter that \<^verbatim>\<open>indexOf\<close> did not
  find is recorded at position -1). The element \<^verbatim>\<open>votes-display\<close>, without which the
  function returns at once, is in the document for as long as the voting is shown.
\<close>

definition updateVotesDisplay :: "firstImpressions \<Rightarrow> error option" where
  "updateVotesDisplay fi =
     (if \<forall>vote \<in> set (fi_votes fi).
           elemAt (fi_players fi) (fst vote) \<noteq> None
           \<and> elemAt (fi_players fi) (int (snd vote)) \<noteq> None
      then None else Some TypeError)"

text \<open>
  \<^verbatim>\<open>recordVote(votingPlayer, suspectedPlayerIndex)\<close>: the vote is stored first; the log
  line that follows reads the name of the suspect and throws when there is none; then
  the display of the votes is updated.
\<close>

definition recordVote ::
  "firstImpressions \<Rightarrow> player \<Rightarrow> nat \<Rightarrow> (error \<times> firstImpressions) + firstImpressions" where
  "recordVote fi votingPlayer suspectedPlayerIndex =
     (let votingPlayerIndex = indexOf (fi_players fi) votingPlayer;
          fi1 = fi\<lparr>fi_votes := mapSet (fi_votes fi) votingPlayerIndex suspectedPlayerIndex\<rparr>
      in case elemAt (fi_players fi) (int suspectedPlayerIndex) of
           None \<Rightarrow> Inl (TypeError, fi1)
         | Some suspectedPlayer \<Rightarrow>
             (case updateVotesDisplay fi1 of
                Some e \<Rightarrow> Inl (e, fi1)
              | None \<Rightarrow> Inr fi1))"

text \<open>
  A click on the option that carries \<open>suspectedPlayerIndex\<close>, while the interface of
  \<open>votingPlayer\<close> is shown. Only the rendered options have a click handler: for any other
  index there is nothing to click, and no vote is cast (\<open>None\<close>).
\<close>

definition clickSuspectOption ::
  "firstImpressions \<Rightarrow> player \<Rightarrow> nat \<Rightarrow> ((error \<times> firstImpressions) + firstImpressions) option" where
  "clickSuspectOption fi votingPlayer suspectedPlayerIndex =
     (if suspectedPlayerIndex \<in> set (playerOptions (fi_players fi) votingPlayer)
      then Some (recordVote fi votingPlayer suspectedPlayerIndex)
      else None)"

text \<open>
  A run of the voting: each pair is a voting player and the option that player clicks.
  The run stops at the first click that is not possible or throws.
\<close>

fun castVotes :: "firstImpressions \<Rightarrow> (player \<times> nat) list \<Rightarrow> firstImpressions option" where
  "castVotes fi [] = Some fi"
| "castVotes fi ((votingPlayer, suspect) # rest) =
     (case clickSuspectOption fi votingPlayer suspect of
        Some (Inr fi1) \<Rightarrow> castVotes fi1 rest
      | _ \<Rightarrow> None)"

text \<open>
  \<^verbatim>\<open>analyzeVotes()\<close>. First pass: \<^verbatim>\<open>suspicionCounts\<close>, a \<^verbatim>\<open>Map\<close> from suspect to
  count, filled in the order of the votes.
\<close>

definition countSuspicion :: "(nat \<times> nat) list \<Rightarrow> int \<times> nat \<Rightarrow> (nat \<times> nat) list" where
  "countSuspicion suspicionCounts vote =
     (let suspectedIndex = snd vote
      in mapSet suspicionCounts suspectedIndex
           ((case map_of suspicionCounts suspectedIndex of None \<Rightarrow> 0 | Some c \<Rightarrow> if c = 0 then 0 else c) + 1))"

definition suspicionCounts :: "(int \<times> nat) list \<Rightarrow> (nat \<times> nat) list" where
  "suspicionCounts votes = foldl countSuspicion [] votes"

text \<open>
  Second pass: the entry with the largest count, the first such entry in the order of
  \<^verbatim>\<open>suspicionCounts\<close>. The pair is \<^verbatim>\<open>(mostSuspected, maxSuspicions)\<close>.
\<close>

definition moreSuspected :: "nat option \<times> nat \<Rightarrow> nat \<times> nat \<Rightarrow> nat option \<times> nat" where
  "moreSuspected acc entry =
     (if snd entry > snd acc then (Some (fst entry), snd entry) else acc)"

definition mostSuspected :: "(int \<times> nat) list \<Rightarrow> nat option" where
  "mostSuspected votes = fst (foldl moreSuspected (None, 0) (suspicionCounts votes))"

text \<open>
  \<^verbatim>\<open>analyzeVotes()\<close> stores the votes, the counts and the most suspected player in the
  game state; the role of the most suspected player is read for the log and throws when
  the player does not exist.
\<close>

definition analyzeVotes ::
  "firstImpressions \<Rightarrow> error + ((int \<times> nat) list \<times> (nat \<times> nat) list \<times> nat option)" where
  "analyzeVotes fi =
     (let counts = suspicionCounts (fi_votes fi); most = mostSuspected (fi_votes fi)
      in case most of
           None \<Rightarrow> Inr (fi_votes fi, counts, most)
         | Some m \<Rightarrow>
             (case elemAt (fi_players fi) (int m) of
                None \<Rightarrow> Inl TypeError
              | Some suspectedPlayer \<Rightarrow> Inr (fi_votes fi, counts, most)))"

text \<open>
  The reference the tally is compared with, written from the specification: count, for
  each suspect, the votes that name it, and take the suspect with the largest count, the
  first one reached in a single pass over the votes in voter order.
\<close>

definition bruteForceCount :: "(int \<times> nat) list \<Rightarrow> nat \<Rightarrow> nat" where
  "bruteForceCount votes suspect = length (filter (\<lambda>vote. snd vote = suspect) votes)"

definition bruteForceMostSuspected :: "(int \<times> nat) list \<Rightarrow> nat option" where
  "bruteForceMostSuspected votes =
     find (\<lambda>suspect. \<forall>other \<in> set (map snd votes).
                        bruteForceCount votes other \<le> bruteForceCount votes suspect)
          (map snd votes)"

section \<open>The duel (class RockPaperScissorsChallenge)\<close>

datatype move = Rock | Paper | Scissors

datatype gameResult = PlayerWins | AiWins | Tie

record gameScore =
  goodTeam :: nat
  badTeam :: nat
  ties :: nat

record winThresholds =
  good :: nat
  bad :: nat

text \<open>
  One rendered teammate option of the strategic console: the position of the player in
  \<^verbatim>\<open>this.players\<close> (\<^verbatim>\<open>data-player\<close>) and whether the option carries the class
  \<^verbatim>\<open>disabled\<close>.
\<close>

record teammateOption =
  dataPlayer :: int
  disabled :: bool

text \<open>
  What is on the screen, with the variables the handlers of that screen close over. Each
  overlay is removed before the next one is built, so the click handlers that exist are
  those of the current screen; the one exception, the chosen player's screen, which
  stays for a while after its confirm button has been clicked, is treated in \<open>step\<close>.
  \<^item> \<open>TeamLeaderScreen\<close>: the overlay of \<^verbatim>\<open>selectTeamLeader\<close> with its start button;
  \<^item> \<open>StrategicConsole options selectedPlayer selectedMove\<close>: the overlay of
    \<^verbatim>\<open>startRockPaperScissors\<close> and the locals of \<^verbatim>\<open>bindCombinedSelection\<close>;
  \<^item> \<open>TeamVoting votesCast totalVotes\<close>: the overlay of \<^verbatim>\<open>showTeamVoting\<close>;
  \<^item> \<open>VoteResult approved yesVotes noVotes\<close>: the overlay of \<^verbatim>\<open>showVoteResult\<close>;
  \<^item> \<open>PlayerDecision selectedMove\<close>: the overlay of \<^verbatim>\<open>showPlayerDecision\<close>;
  \<^item> \<open>TurnAnalysis\<close>: the overlay of \<^verbatim>\<open>showRegularTurnAnalysis\<close>;
  \<^item> \<open>FinalVictory\<close>: the overlay of \<^verbatim>\<open>showFinalVictoryScreen\<close>.
\<close>

datatype screen =
    NoScreen
  | TeamLeaderScreen
  | StrategicConsole "teammateOption list" "player option" "move option"
  | TeamVoting nat nat
  | VoteResult bool nat nat
  | PlayerDecision "move option"
  | TurnAnalysis
  | FinalVictory

record duel =
  players :: "player list"
  winThresholds :: winThresholds
  gameEnded :: bool
  winningTeam :: "team option"
  teamLeaderRotation :: "nat list"
  currentTeamLeaderIndex :: nat
  lastSelectedPlayer :: "player option"
  currentRound :: nat
  completedFirstRound :: bool
  teamLeader :: "player option"
  chosenPlayer :: "player option"
  aiMove :: "move option"
  suggestedMove :: "move option"
  playerMove :: "move option"
  gameResult :: "gameResult option"
  gameScore :: gameScore
  votes :: "bool list"
  votingComplete :: bool
  votingActive :: bool
  screen :: screen

text \<open>The constructor.\<close>

definition newDuel :: duel where
  "newDuel =
     \<lparr>players = [], winThresholds = \<lparr>good = 0, bad = 0\<rparr>, gameEnded = False,
      winningTeam = None, teamLeaderRotation = [], currentTeamLeaderIndex = 0,
      lastSelectedPlayer = None, currentRound = 1, completedFirstRound = False,
      teamLeader = None, chosenPlayer = None, aiMove = None, suggestedMove = None,
      playerMove = None, gameResult = None,
      gameScore = \<lparr>goodTeam = 0, badTeam = 0, ties = 0\<rparr>,
      votes = [], votingComplete = False, votingActive = False, screen = NoScreen\<rparr>"

text \<open>The table of \<^verbatim>\<open>setWinThresholds\<close>; a count that is not a key gives \<^verbatim>\<open>undefined\<close>.\<close>

definition thresholds :: "nat \<Rightarrow> winThresholds option" where
  "thresholds playerCount =
     (if playerCount = 3 then Some \<lparr>good = 4, bad = 3\<rparr>
      else if playerCount = 4 then Some \<lparr>good = 5, bad = 3\<rparr>
      else if playerCount = 5 then Some \<lparr>good = 5, bad = 4\<rparr>
      else if playerCount = 6 then Some \<lparr>good = 6, bad = 5\<rparr>
      else if playerCount = 7 then Some \<lparr>good = 7, bad = 5\<rparr>
      else if playerCount = 8 then Some \<lparr>good = 8, bad = 6\<rparr>
      else None)"

text \<open>
  \<^verbatim>\<open>setWinThresholds(playerCount)\<close>; the log line reads \<^verbatim>\<open>this.winThresholds.good\<close> and
  throws when the table has no entry.
\<close>

definition setWinThresholds :: "duel \<Rightarrow> nat \<Rightarrow> error + duel" where
  "setWinThresholds s playerCount =
     (case thresholds playerCount of
        None \<Rightarrow> Inl TypeError
      | Some t \<Rightarrow> Inr (s\<lparr>winThresholds := t\<rparr>))"

text \<open>
  \<^verbatim>\<open>convertRolesToTeams()\<close>. The expected number of Bad players is read through the
  game manager from the role manager, whose player array is the array of the duel.
\<close>

definition convertRolesToTeams :: "duel \<Rightarrow> error + duel" where
  "convertRolesToTeams s =
     (let converted = map (\<lambda>p. p\<lparr>team := Some (if role p = Bad then BadTeam else GoodTeam)\<rparr>)
                          (players s);
          expectedBadCount = length (getBadPlayers converted);
          actualBadCount = length (filter (\<lambda>p. team p = Some BadTeam) converted)
      in if actualBadCount \<noteq> expectedBadCount then Inl TeamConversionFailed
         else Inr (s\<lparr>players := converted\<rparr>))"

text \<open>\<^verbatim>\<open>checkWinConditions()\<close>: the returned flag and the state after the call.\<close>

definition checkWinConditions :: "duel \<Rightarrow> bool \<times> duel" where
  "checkWinConditions s =
     (if gameEnded s then (False, s)
      else if goodTeam (gameScore s) \<ge> good (winThresholds s)
        then (True, s\<lparr>gameEnded := True, winningTeam := Some GoodTeam\<rparr>)
      else if badTeam (gameScore s) \<ge> bad (winThresholds s)
        then (True, s\<lparr>gameEnded := True, winningTeam := Some BadTeam\<rparr>)
      else (False, s))"

text \<open>\<^verbatim>\<open>determineWinner(p, a)\<close> with its table \<^verbatim>\<open>win\<close>.\<close>

fun win :: "move \<Rightarrow> move" where
  "win Rock = Scissors"
| "win Paper = Rock"
| "win Scissors = Paper"

definition determineWinner :: "move \<Rightarrow> move \<Rightarrow> gameResult" where
  "determineWinner p a = (if p = a then Tie else if win p = a then PlayerWins else AiWins)"

text \<open>
  The score update that opens \<^verbatim>\<open>showDeceptionAnalysis()\<close>. \<open>coin\<close> is the draw that
  \<^verbatim>\<open>Math.random() < 0.5\<close> reads; it is read only when the tie count has just become 3.
\<close>

definition updateScore :: "gameResult option \<Rightarrow> random_value \<Rightarrow> gameScore \<Rightarrow> gameScore" where
  "updateScore result coin sc =
     (if result = Some PlayerWins then sc\<lparr>goodTeam := goodTeam sc + 1\<rparr>
      else if result = Some AiWins then sc\<lparr>badTeam := badTeam sc + 1\<rparr>
      else
        (let sc1 = sc\<lparr>ties := ties sc + 1\<rparr>
         in if ties sc1 = 3 then
              (if rnd_val coin < 1 / 2 then sc1\<lparr>goodTeam := goodTeam sc1 + 1\<rparr>
               else sc1\<lparr>badTeam := badTeam sc1 + 1\<rparr>)
            else if ties sc1 = 4 then sc1\<lparr>goodTeam := goodTeam sc1 + 1\<rparr>
            else sc1))"

text \<open>\<^verbatim>\<open>showFinalVictoryScreen()\<close> and \<^verbatim>\<open>showRegularTurnAnalysis()\<close> change the screen only.\<close>

definition showFinalVictoryScreen :: "duel \<Rightarrow> duel" where
  "showFinalVictoryScreen s = s\<lparr>screen := FinalVictory\<rparr>"

definition showRegularTurnAnalysis :: "duel \<Rightarrow> duel" where
  "showRegularTurnAnalysis s = s\<lparr>screen := TurnAnalysis\<rparr>"

definition showDeceptionAnalysis :: "duel \<Rightarrow> random_source \<Rightarrow> duel" where
  "showDeceptionAnalysis s rs =
     (let s1 = s\<lparr>gameScore := updateScore (gameResult s) (rs 0) (gameScore s)\<rparr>;
          (won, s2) = checkWinConditions s1
      in if won then showFinalVictoryScreen s2 else showRegularTurnAnalysis s2)"

text \<open>
  \<^verbatim>\<open>selectTeamLeader()\<close>: the leader is \<^verbatim>\<open>this.players[this.teamLeaderRotation[...]]\<close>;
  the log line reads the leader's name and throws when there is no such player.
\<close>

definition selectTeamLeader :: "duel \<Rightarrow> error + duel" where
  "selectTeamLeader s =
     (case elemAt (teamLeaderRotation s) (int (currentTeamLeaderIndex s)) of
        None \<Rightarrow> Inl TypeError
      | Some teamLeaderIndex \<Rightarrow>
          (case elemAt (players s) (int teamLeaderIndex) of
             None \<Rightarrow> Inl TypeError
           | Some leader \<Rightarrow> Inr (s\<lparr>teamLeader := Some leader, screen := TeamLeaderScreen\<rparr>)))"

definition nextTeamLeaderTurn :: "duel \<Rightarrow> error + duel" where
  "nextTeamLeaderTurn s =
     (let (won, s1) = checkWinConditions s
      in if won then Inr (showFinalVictoryScreen s1) else selectTeamLeader s1)"

text \<open>\<^verbatim>\<open>completeTurn()\<close>\<close>

definition completeTurn :: "duel \<Rightarrow> error + duel" where
  "completeTurn s =
     nextTeamLeaderTurn
       (s\<lparr>lastSelectedPlayer := chosenPlayer s,
          currentTeamLeaderIndex :=
            (currentTeamLeaderIndex s + 1) mod length (teamLeaderRotation s)\<rparr>)"

text \<open>
  \<^verbatim>\<open>renderPlayerSelection()\<close>: the players other than the leader, in a shuffled order,
  each with its position in \<^verbatim>\<open>this.players\<close>; the option of the player of the turn
  before is rendered disabled. The draws are read from position \<open>pos\<close>.
\<close>

definition renderPlayerSelection :: "duel \<Rightarrow> random_source \<Rightarrow> nat \<Rightarrow> teammateOption list" where
  "renderPlayerSelection s rs pos =
     (let eligiblePlayers = filter (\<lambda>player. Some player \<noteq> teamLeader s) (players s);
          shuffledPlayers = fst (shuffleLoop (length eligiblePlayers - 1) eligiblePlayers rs pos)
      in map (\<lambda>player. \<lparr>dataPlayer = indexOf (players s) player,
                         disabled = (lastSelectedPlayer s = Some player)\<rparr>)
             shuffledPlayers)"

text \<open>The players \<^verbatim>\<open>bindCombinedSelection()\<close> counts for the automatic selection.\<close>

definition availablePlayers :: "duel \<Rightarrow> player list" where
  "availablePlayers s =
     filter (\<lambda>player. Some player \<noteq> teamLeader s \<and> \<not> (lastSelectedPlayer s = Some player))
            (players s)"

text \<open>
  \<^verbatim>\<open>startRockPaperScissors()\<close>: the engine's move is drawn, the console is rendered and
  \<^verbatim>\<open>bindCombinedSelection()\<close> sets the selection to the only available player when
  there is exactly one.
\<close>

definition startRockPaperScissors :: "duel \<Rightarrow> random_source \<Rightarrow> duel" where
  "startRockPaperScissors s rs =
     (let moves = [Rock, Paper, Scissors];
          s1 = s\<lparr>aiMove := elemAt moves (int (floor_random (rs 0) (length moves)))\<rparr>;
          options = renderPlayerSelection s1 rs 1;
          selectedPlayer = (if length (availablePlayers s1) = 1
                            then Some (availablePlayers s1 ! 0) else None)
      in s1\<lparr>screen := StrategicConsole options selectedPlayer None\<rparr>)"

text \<open>\<^verbatim>\<open>showTeamVoting()\<close>: everybody but the leader votes.\<close>

definition showTeamVoting :: "duel \<Rightarrow> duel" where
  "showTeamVoting s =
     (let voters = filter (\<lambda>player. Some player \<noteq> teamLeader s) (players s)
      in s\<lparr>votes := [], votingComplete := False, votingActive := True,
           screen := TeamVoting 0 (length voters)\<rparr>)"

definition showPlayerDecision :: "duel \<Rightarrow> duel" where
  "showPlayerDecision s = s\<lparr>screen := PlayerDecision None\<rparr>"

text \<open>
  The handler of the confirm button of the console. \<^verbatim>\<open>Math.random() < 0.3\<close> is read
  only when the two conditions before it hold; \<open>0.3\<close> is taken as the fraction \<open>3/10\<close>.
\<close>

definition shouldVote :: "duel \<Rightarrow> random_value \<Rightarrow> bool" where
  "shouldVote s r \<longleftrightarrow> completedFirstRound s \<and> length (players s) \<ge> 5 \<and> rnd_val r < 3 / 10"

definition confirmSelections :: "duel \<Rightarrow> player option \<Rightarrow> move option \<Rightarrow> random_source \<Rightarrow> duel" where
  "confirmSelections s selectedPlayer selectedMove rs =
     (if selectedPlayer = None \<or> selectedMove = None then s
      else
        (let s1 = s\<lparr>chosenPlayer := selectedPlayer, suggestedMove := selectedMove\<rparr>
         in if shouldVote s1 (rs 0) then showTeamVoting s1 else showPlayerDecision s1))"

text \<open>
  \<^verbatim>\<open>processVoteResult()\<close>: a strict majority of the votes cast approves the choice.
  The vote overlay, which the source also tests for, is present for as long as the vote
  is on the screen.
\<close>

definition processVoteResult :: "duel \<Rightarrow> duel" where
  "processVoteResult s =
     (if \<not> votingComplete s then s
      else
        (let yesVotes = length (filter (\<lambda>vote. vote) (votes s));
             noVotes = length (filter (\<lambda>vote. \<not> vote) (votes s));
             totalVotes = yesVotes + noVotes;
             majority = totalVotes div 2 + 1
         in s\<lparr>votingActive := False, votingComplete := False,
              screen := VoteResult (yesVotes \<ge> majority) yesVotes noVotes\<rparr>))"

text \<open>\<^verbatim>\<open>castVote(voteValue)\<close>, the handler of the two vote buttons.\<close>

definition castVote :: "duel \<Rightarrow> nat \<Rightarrow> nat \<Rightarrow> bool \<Rightarrow> duel" where
  "castVote s votesCast totalVotes voteValue =
     (if \<not> votingActive s \<or> votesCast \<ge> totalVotes then s
      else
        (let s1 = s\<lparr>votes := votes s @ [voteValue],
                     screen := TeamVoting (votesCast + 1) totalVotes\<rparr>
         in if votesCast + 1 \<ge> totalVotes \<and> votingActive s1
            then processVoteResult (s1\<lparr>votingActive := False, votingComplete := True\<rparr>)
            else s1))"

text \<open>
  The handler of the confirm button of the chosen player's screen: the move is stored,
  the winner is determined and, after the battle animation, the score is updated. With
  no engine move stored the comparison of \<^verbatim>\<open>determineWinner\<close> gives \<^verbatim>\<open>'ai'\<close>.
\<close>

definition confirmChoice :: "duel \<Rightarrow> move option \<Rightarrow> random_source \<Rightarrow> duel" where
  "confirmChoice s selectedMove rs =
     (case selectedMove of
        None \<Rightarrow> s
      | Some m \<Rightarrow>
          (let s1 = s\<lparr>playerMove := Some m\<rparr>;
               s2 = s1\<lparr>gameResult := Some (case aiMove s1 of
                                              None \<Rightarrow> AiWins
                                            | Some a \<Rightarrow> determineWinner m a)\<rparr>
           in showDeceptionAnalysis s2 rs))"

text \<open>The inputs of a turn: the clicks the screens of the duel react to.\<close>

datatype event =
    StartTurn
  | ClickTeammate nat
  | ClickSuggestion move
  | ConfirmSelections
  | VoteYes
  | VoteNo
  | ContinueVote
  | ClickFinalMove move
  | ConfirmChoice
  | NextTurn

text \<open>
  One input and what its handler does. \<open>ClickTeammate k\<close> is a click on the \<open>k\<close>-th
  rendered teammate option; an option with the class \<^verbatim>\<open>disabled\<close> has no click handler.
  \<open>rs\<close> is the sequence of draws the handler reads. An input that the current screen has
  no element or handler for changes nothing.

  The confirm button of the chosen player's screen is the exception. Its handler has no
  guard against a second click (the confirm button of the console and the buttons of the
  victory screen have one), and the screen stays, with the button, for 2.5 seconds after
  a click (\<^verbatim>\<open>delay(2000)\<close>, \<^verbatim>\<open>delay(500)\<close>) before the handler removes it. Every click
  in that time starts the handler once more. Each run stores the selected move at once;
  later, after the announcement and during the battle scene, it determines the winner
  from the stored moves, and at its end it calls \<^verbatim>\<open>showDeceptionAnalysis()\<close>. The
  elements the runs look up by id exist in every run, so no run throws. So
  \<open>ConfirmChoice\<close> on the chosen player's screen is a click together with the run it
  starts, and \<open>ConfirmChoice\<close> on any other screen is the end of a run that a further
  click started while the chosen player's screen was still there: it reads the stored
  move, and changes nothing when no move has been stored yet. The overlay that such a
  run appends is kept as the screen, and its button is taken to work, also where an
  overlay of an earlier run is still in the document.
\<close>

fun step :: "duel \<Rightarrow> event \<Rightarrow> random_source \<Rightarrow> error + duel" where
  "step s StartTurn rs =
     (case screen s of
        TeamLeaderScreen \<Rightarrow> Inr (startRockPaperScissors s rs)
      | _ \<Rightarrow> Inr s)"
| "step s (ClickTeammate k) rs =
     (case screen s of
        StrategicConsole options selectedPlayer selectedMove \<Rightarrow>
          (if k < length options \<and> \<not> disabled (options ! k)
           then Inr (s\<lparr>screen := StrategicConsole options
                                    (elemAt (players s) (dataPlayer (options ! k)))
                                    selectedMove\<rparr>)
           else Inr s)
      | _ \<Rightarrow> Inr s)"
| "step s (ClickSuggestion m) rs =
     (case screen s of
        StrategicConsole options selectedPlayer selectedMove \<Rightarrow>
          Inr (s\<lparr>screen := StrategicConsole options selectedPlayer (Some m)\<rparr>)
      | _ \<Rightarrow> Inr s)"
| "step s ConfirmSelections rs =
     (case screen s of
        StrategicConsole options selectedPlayer selectedMove \<Rightarrow>
          Inr (confirmSelections s selectedPlayer selectedMove rs)
      | _ \<Rightarrow> Inr s)"
| "step s VoteYes rs =
     (case screen s of
        TeamVoting votesCast totalVotes \<Rightarrow> Inr (castVote s votesCast totalVotes True)
      | _ \<Rightarrow> Inr s)"
| "step s VoteNo rs =
     (case screen s of
        TeamVoting votesCast totalVotes \<Rightarrow> Inr (castVote s votesCast totalVotes False)
      | _ \<Rightarrow> Inr s)"
| "step s ContinueVote rs =
     (case screen s of
        VoteResult approved yesVotes noVotes \<Rightarrow>
          (if approved then Inr (showPlayerDecision s) else Inr (startRockPaperScissors s rs))
      | _ \<Rightarrow> Inr s)"
| "step s (ClickFinalMove m) rs =
     (case screen s of
        PlayerDecision selectedMove \<Rightarrow> Inr (s\<lparr>screen := PlayerDecision (Some m)\<rparr>)
      | _ \<Rightarrow> Inr s)"
| "step s ConfirmChoice rs =
     (case screen s of
        PlayerDecision selectedMove \<Rightarrow> Inr (confirmChoice s selectedMove rs)
      | _ \<Rightarrow> Inr (confirmChoice s (playerMove s) rs))"
| "step s NextTurn rs =
     (case screen s of
        TurnAnalysis \<Rightarrow> completeTurn s
      | _ \<Rightarrow> Inr s)"

text \<open>
  \<^verbatim>\<open>init()\<close> followed by \<^verbatim>\<open>startContinuousGameplay()\<close>: the checks of the player
  count, the thresholds, the teams, the shuffled order of the leaders, and the first
  leader. \<open>secretRoles\<close> is the player array of the role manager.
\<close>

definition init :: "player list \<Rightarrow> random_source \<Rightarrow> error + duel" where
  "init secretRoles rs =
     (let s = newDuel\<lparr>players := secretRoles\<rparr>
      in if length (players s) < 3 then Inl TooFewPlayers
         else if length (players s) > 8 then Inl TooManyPlayers
         else
           (case setWinThresholds s (length (players s)) of
              Inl e \<Rightarrow> Inl e
            | Inr s1 \<Rightarrow>
                (case convertRolesToTeams s1 of
                   Inl e \<Rightarrow> Inl e
                 | Inr s2 \<Rightarrow>
                     (let keys = [0..<length (players s2)];
                          s3 = s2\<lparr>teamLeaderRotation := fst (shuffleLoop (length keys - 1) keys rs 0)\<rparr>
                      in nextTeamLeaderTurn (s3\<lparr>currentTeamLeaderIndex := 0\<rparr>)))))"

text \<open>The states a duel can be in: what \<open>init\<close> returns, and what the inputs lead to.\<close>

inductive reachable :: "duel \<Rightarrow> bool" where
  reachable_init: "init secretRoles rs = Inr s \<Longrightarrow> reachable s"
| reachable_step: "reachable s \<Longrightarrow> step s e rs = Inr s' \<Longrightarrow> reachable s'"

text \<open>A run of inputs, each with its draws; it stops at the first error.\<close>

fun run :: "duel \<Rightarrow> (event \<times> random_source) list \<Rightarrow> error + duel" where
  "run s [] = Inr s"
| "run s ((e, rs) # rest) = (case step s e rs of Inl err \<Rightarrow> Inl err | Inr s1 \<Rightarrow> run s1 rest)"

text \<open>
  What each screen shows of the state: the values its template interpolates. The console
  of the leader shows the engine's move; the battle animation shows it to everybody only
  after the chosen player has confirmed.
\<close>

datatype view =
    NoView
  | TeamLeaderView "string option" "string option" nat nat nat nat nat
  | StrategicConsoleView "move option" "(string option \<times> int \<times> bool) list"
  | TeamVotingView int "string option" "string option" nat
  | VoteResultView bool nat nat "string option"
  | PlayerDecisionView "string option" "string option" "move option"
  | TurnAnalysisView "gameResult option" nat nat
  | FinalVictoryView "team option" nat nat nat

definition view :: "duel \<Rightarrow> view" where
  "view s =
     (case screen s of
        NoScreen \<Rightarrow> NoView
      | TeamLeaderScreen \<Rightarrow>
          TeamLeaderView (map_option name (teamLeader s)) (map_option color (teamLeader s))
            (goodTeam (gameScore s)) (good (winThresholds s)) (ties (gameScore s))
            (badTeam (gameScore s)) (bad (winThresholds s))
      | StrategicConsole options selectedPlayer selectedMove \<Rightarrow>
          StrategicConsoleView (aiMove s)
            (map (\<lambda>opt. (map_option name (elemAt (players s) (dataPlayer opt)),
                          dataPlayer opt, disabled opt)) options)
      | TeamVoting votesCast totalVotes \<Rightarrow>
          TeamVotingView
            (case chosenPlayer s of None \<Rightarrow> 0 | Some p \<Rightarrow> indexOf (players s) p + 1)
            (map_option name (chosenPlayer s)) (map_option color (chosenPlayer s)) totalVotes
      | VoteResult approved yesVotes noVotes \<Rightarrow>
          VoteResultView approved yesVotes noVotes (map_option name (chosenPlayer s))
      | PlayerDecision selectedMove \<Rightarrow>
          PlayerDecisionView (map_option name (chosenPlayer s))
            (map_option color (chosenPlayer s)) (suggestedMove s)
      | TurnAnalysis \<Rightarrow>
          TurnAnalysisView (gameResult s) (goodTeam (gameScore s)) (badTeam (gameScore s))
      | FinalVictory \<Rightarrow>
          FinalVictoryView (winningTeam s) (goodTeam (gameScore s)) (ties (gameScore s))
            (badTeam (gameScore s)))"

text \<open>
  The score after a sequence of resolved turns, each given by its result and the draw
  the coin flip would read.
\<close>

definition scoreAfter :: "gameScore \<Rightarrow> (gameResult \<times> random_value) list \<Rightarrow> gameScore" where
  "scoreAfter sc turns = foldl (\<lambda>sc turn. updateScore (Some (fst turn)) (snd turn) sc) sc turns"

text \<open>
  The turn an input resolves, if it resolves one: a run of the handler of the confirm
  button of the chosen player's screen, with a move selected or stored, resolves the
  turn with the result of that move against the engine's move; the draw is the one the
  coin flip would read. \<open>resolvedTurns\<close> collects the turns a run of inputs resolves.
\<close>

definition resolvedTurn ::
  "duel \<Rightarrow> event \<Rightarrow> random_source \<Rightarrow> (gameResult \<times> random_value) option" where
  "resolvedTurn s e rs =
     (if e = ConfirmChoice
      then map_option
             (\<lambda>m. (case aiMove s of None \<Rightarrow> AiWins | Some a \<Rightarrow> determineWinner m a, rs 0))
             (case screen s of PlayerDecision selectedMove \<Rightarrow> selectedMove | _ \<Rightarrow> playerMove s)
      else None)"

fun resolvedTurns :: "duel \<Rightarrow> (event \<times> random_source) list \<Rightarrow> (gameResult \<times> random_value) list" where
  "resolvedTurns s [] = []"
| "resolvedTurns s ((e, rs) # rest) =
     (case step s e rs of
        Inl err \<Rightarrow> []
      | Inr s1 \<Rightarrow> (case resolvedTurn s e rs of None \<Rightarrow> [] | Some t \<Rightarrow> [t]) @ resolvedTurns s1 rest)"

text \<open>A duel state for examples: the constructor's state with a score and thresholds.\<close>

definition duelWith :: "gameScore \<Rightarrow> winThresholds \<Rightarrow> duel" where
  "duelWith sc th = newDuel\<lparr>gameScore := sc, winThresholds := th\<rparr>"

section \<open>Example games\<close>

text \<open>
  Players as the role manager leaves them, a random source on which \<^verbatim>\<open>Math.random()\<close>
  always returns 0, and the inputs of one complete turn in which the chosen player
  answers the engine's rock with rock. The two clicks on teammate options select
  whichever of the first two options is not locked.
\<close>

definition examplePlayer :: "nat \<Rightarrow> role \<Rightarrow> player" where
  "examplePlayer i r =
     \<lparr>name = ''Player'', color = ''#ffffff'', colorName = ''White'',
      index = i, role = r, hasReceived = True, partnerId = None, team = None\<rparr>"

definition threePlayers :: "player list" where
  "threePlayers = [examplePlayer 0 Good, examplePlayer 1 Bad, examplePlayer 2 Good]"

definition fivePlayers :: "player list" where
  "fivePlayers = [examplePlayer 0 Good, examplePlayer 1 Bad, examplePlayer 2 Good,
                  examplePlayer 3 Bad, examplePlayer 4 Good]"

definition zeroDraws :: random_source where
  "zeroDraws = (\<lambda>n. Draw 0 0)"

definition turnWith :: "move \<Rightarrow> (event \<times> random_source) list" where
  "turnWith m =
     [(StartTurn, zeroDraws), (ClickTeammate 0, zeroDraws), (ClickTeammate 1, zeroDraws),
      (ClickSuggestion Paper, zeroDraws), (ConfirmSelections, zeroDraws),
      (ClickFinalMove m, zeroDraws), (ConfirmChoice, zeroDraws)]"

definition playFrom :: "player list \<Rightarrow> (event \<times> random_source) list \<Rightarrow> error + duel" where
  "playFrom secretRoles inputs =
     (case init secretRoles zeroDraws of Inl e \<Rightarrow> Inl e | Inr s \<Rightarrow> run s inputs)"

text \<open>The bonus points the tie-break rule has awarded once the tie count is \<open>t\<close>.\<close>

definition bonus :: "nat \<Rightarrow> nat" where
  "bonus t = (if 3 \<le> t then 1 else 0) + (if 4 \<le> t then 1 else 0)"

section \<open>What holds in every state of a duel\<close>

text \<open>
  A rendered teammate option belongs to a player other than the leader, carries that
  player's position and is disabled exactly when that player acted in the turn before.
  A player may act when it is one of the players, is not the leader and did not act in
  the turn before.
\<close>

definition consoleOption_ok :: "duel \<Rightarrow> teammateOption \<Rightarrow> bool" where
  "consoleOption_ok s opt \<longleftrightarrow>
     (\<exists>p \<in> set (players s). Some p \<noteq> teamLeader s \<and> dataPlayer opt = indexOf (players s) p
        \<and> disabled opt = (lastSelectedPlayer s = Some p))"

definition eligibleActor :: "duel \<Rightarrow> player option \<Rightarrow> bool" where
  "eligibleActor s sel \<longleftrightarrow>
     (\<exists>p \<in> set (players s). sel = Some p \<and> Some p \<noteq> teamLeader s \<and> lastSelectedPlayer s \<noteq> Some p)"

definition screen_ok :: "duel \<Rightarrow> bool" where
  "screen_ok s =
     (case screen s of
        NoScreen \<Rightarrow> False
      | TeamLeaderScreen \<Rightarrow> True
      | StrategicConsole options selectedPlayer selectedMove \<Rightarrow>
          (\<forall>opt \<in> set options. consoleOption_ok s opt)
          \<and> (selectedPlayer = None \<or> eligibleActor s selectedPlayer)
      | TeamVoting votesCast totalVotes \<Rightarrow> eligibleActor s (chosenPlayer s)
      | VoteResult approved yesVotes noVotes \<Rightarrow> eligibleActor s (chosenPlayer s)
      | PlayerDecision selectedMove \<Rightarrow> eligibleActor s (chosenPlayer s)
      | TurnAnalysis \<Rightarrow> True
      | FinalVictory \<Rightarrow> True)"

definition invariant :: "duel \<Rightarrow> bool" where
  "invariant s \<longleftrightarrow>
     thresholds (length (players s)) = Some (winThresholds s)
     \<and> (screen s = FinalVictory \<longrightarrow> gameEnded s)
     \<and> (gameEnded s \<longleftrightarrow> good (winThresholds s) \<le> goodTeam (gameScore s)
                          \<or> bad (winThresholds s) \<le> badTeam (gameScore s))
     \<and> mset (teamLeaderRotation s) = mset [0..<length (players s)]
     \<and> currentTeamLeaderIndex s < length (players s)
     \<and> teamLeader s = Some (players s ! (teamLeaderRotation s ! currentTeamLeaderIndex s))
     \<and> \<not> completedFirstRound s
     \<and> screen_ok s"

section \<open>More example inputs\<close>

text \<open>
  A turn the chosen player wins with paper against the engine's rock, followed by the
  click on the button for the next turn; a game of three players that the Good team wins
  in four such turns; and a random source whose first draw is given.
\<close>

definition wonTurn :: "(event \<times> random_source) list" where
  "wonTurn = turnWith Paper @ [(NextTurn, zeroDraws)]"

definition goodWins :: "(event \<times> random_source) list" where
  "goodWins = wonTurn @ wonTurn @ wonTurn @ turnWith Paper"

definition engineDraws :: "random_value \<Rightarrow> random_source" where
  "engineDraws r = (\<lambda>n. if n = 0 then r else Draw 0 0)"

text \<open>
  The inputs up to the console of the second turn, three turns that each end in a tie
  of rock against rock, and the inputs up to the confirmation of the leader's selections
  in the second turn.
\<close>

definition secondConsole :: "(event \<times> random_source) list" where
  "secondConsole = wonTurn @ [(StartTurn, zeroDraws)]"

definition threeTies :: "(event \<times> random_source) list" where
  "threeTies = turnWith Rock @ [(NextTurn, zeroDraws)] @ turnWith Rock @ [(NextTurn, zeroDraws)]
                 @ turnWith Rock"

definition secondConfirm :: "(event \<times> random_source) list" where
  "secondConfirm = wonTurn @
     [(StartTurn, zeroDraws), (ClickTeammate 0, zeroDraws), (ClickTeammate 1, zeroDraws),
      (ClickSuggestion Paper, zeroDraws), (ConfirmSelections, zeroDraws)]"

section \<open>Role assignment: the players before the shuffle, and examples\<close>

text \<open>
  \<open>badSpec\<close>: the chosen indices are distinct positions of the roster.
  \<open>assignedPlayer\<close>: the player object at position \<open>i\<close> once the Bad roles and the
  partner links have been written, for the chosen indices \<open>chosen\<close>.
\<close>

definition badSpec :: "nat list \<Rightarrow> nat \<Rightarrow> bool" where
  "badSpec chosen n \<longleftrightarrow> distinct chosen \<and> (\<forall>i \<in> set chosen. i < n)"

definition assignedPlayer :: "playerData list \<Rightarrow> nat list \<Rightarrow> bool \<Rightarrow> nat \<Rightarrow> player" where
  "assignedPlayer playersData chosen know i =
     (newPlayer i (playersData ! i))
       \<lparr>role := (if i \<in> set chosen then Bad else Good),
        partnerId := (if know \<and> length chosen = 2 \<and> i = chosen ! 0 then Some (chosen ! 1)
                      else if know \<and> length chosen = 2 \<and> i = chosen ! 1 then Some (chosen ! 0)
                      else None)\<rparr>"

text \<open>
  A roster of \<open>n\<close> entries, the role manager as its constructor leaves it, and a random
  source whose draws are 0/8, 1/9, 2/10, ...
\<close>

definition exampleData :: "nat \<Rightarrow> playerData list" where
  "exampleData n = map (\<lambda>i. \<lparr>name = ''Player'', color = ''#ffffff'', colorName = ''White''\<rparr>) [0..<n]"

definition newRoleManager :: roleManager where
  "newRoleManager = \<lparr>rm_players = [], rm_currentPlayerIndex = 0, isAssigningRoles = False,
                      badPlayersKnowEachOther = None\<rparr>"

definition risingDraws :: random_source where
  "risingDraws = (\<lambda>n. Draw n 7)"

section \<open>The suspicion vote: order of first appearance, and an example\<close>

text \<open>The elements of a list in the order in which they first appear.\<close>

definition firsts :: "'a list \<Rightarrow> 'a list" where
  "firsts xs = foldl (\<lambda>acc x. if x \<in> set acc then acc else acc @ [x]) [] xs"

text \<open>
  A vote of three players: the first and the third suspect the second, the second
  suspects the first.
\<close>

definition exampleVoting :: firstImpressions where
  "exampleVoting = \<lparr>fi_players = threePlayers, fi_votes = [], fi_currentPlayerIndex = 0,
                     fi_votingComplete = False\<rparr>"

definition exampleClicks :: "(player \<times> nat) list" where
  "exampleClicks = [(threePlayers ! 0, 1), (threePlayers ! 1, 0), (threePlayers ! 2, 1)]"

section \<open>Facts about the random source\<close>

declare selectBadPlayers.simps [code]

lemma floor_random_Draw [simp, code]: "floor_random (Draw a g) n = (a * n) div (a + g + 1)"
proof -
  have "rnd_val (Draw a g) * of_nat n = (of_nat (a * n) :: rat) / of_nat (a + g + 1)"
    by simp
  then show ?thesis
    unfolding floor_random_def by (simp only: floor_divide_of_nat_eq nat_int)
qed

lemma floor_random_less: "0 < n \<Longrightarrow> floor_random r n < n"
proof (cases r)
  case (Draw a g)
  assume n: "0 < n"
  have "a * n < a * n + (g * n + n)"
    using n by linarith
  moreover have "(a + g + 1) * n = a * n + (g * n + n)"
    by (simp add: algebra_simps)
  ultimately have "a * n < (a + g + 1) * n"
    by (simp only:)
  then have "(a * n) div (a + g + 1) < n"
    by (metis less_mult_imp_div_less mult.commute)
  then show ?thesis
    using Draw by simp
qed

section \<open>The win check\<close>

lemma step_ConfirmChoice:
  "step s ConfirmChoice rs
     = Inr (confirmChoice s (case screen s of PlayerDecision sel \<Rightarrow> sel | _ \<Rightarrow> playerMove s) rs)"
  by (cases "screen s") simp_all

lemma showDeceptionAnalysis_fields:
  "players (showDeceptionAnalysis s rs) = players s"
  "winThresholds (showDeceptionAnalysis s rs) = winThresholds s"
  "teamLeaderRotation (showDeceptionAnalysis s rs) = teamLeaderRotation s"
  "currentTeamLeaderIndex (showDeceptionAnalysis s rs) = currentTeamLeaderIndex s"
  "lastSelectedPlayer (showDeceptionAnalysis s rs) = lastSelectedPlayer s"
  "completedFirstRound (showDeceptionAnalysis s rs) = completedFirstRound s"
  "teamLeader (showDeceptionAnalysis s rs) = teamLeader s"
  "chosenPlayer (showDeceptionAnalysis s rs) = chosenPlayer s"
  "aiMove (showDeceptionAnalysis s rs) = aiMove s"
  "screen (showDeceptionAnalysis s rs) = TurnAnalysis \<or> screen (showDeceptionAnalysis s rs) = FinalVictory"
  "screen (showDeceptionAnalysis s rs) = FinalVictory \<longrightarrow> gameEnded (showDeceptionAnalysis s rs)"
  "gameEnded s \<longrightarrow> gameEnded (showDeceptionAnalysis s rs)
                    \<and> winningTeam (showDeceptionAnalysis s rs) = winningTeam s"
  by (simp_all add: showDeceptionAnalysis_def Let_def checkWinConditions_def
        showFinalVictoryScreen_def showRegularTurnAnalysis_def)

lemma confirmChoice_fields:
  "players (confirmChoice s sel rs) = players s"
  "winThresholds (confirmChoice s sel rs) = winThresholds s"
  "teamLeaderRotation (confirmChoice s sel rs) = teamLeaderRotation s"
  "currentTeamLeaderIndex (confirmChoice s sel rs) = currentTeamLeaderIndex s"
  "lastSelectedPlayer (confirmChoice s sel rs) = lastSelectedPlayer s"
  "completedFirstRound (confirmChoice s sel rs) = completedFirstRound s"
  "teamLeader (confirmChoice s sel rs) = teamLeader s"
  "chosenPlayer (confirmChoice s sel rs) = chosenPlayer s"
  "aiMove (confirmChoice s sel rs) = aiMove s"
  by (cases sel; simp add: confirmChoice_def Let_def showDeceptionAnalysis_fields)+

lemma confirmChoice_screen:
  "screen (confirmChoice s sel rs) = screen s \<or> screen (confirmChoice s sel rs) = TurnAnalysis
     \<or> screen (confirmChoice s sel rs) = FinalVictory"
  using showDeceptionAnalysis_fields(10)
  by (cases sel) (simp_all add: confirmChoice_def Let_def)

lemma confirmChoice_ended:
  "gameEnded s \<Longrightarrow> gameEnded (confirmChoice s sel rs)
     \<and> winningTeam (confirmChoice s sel rs) = winningTeam s"
  by (cases sel) (simp_all add: confirmChoice_def Let_def showDeceptionAnalysis_fields(12))

lemma checkWinConditions_ended: "gameEnded s \<Longrightarrow> checkWinConditions s = (False, s)"
  by (simp add: checkWinConditions_def)

lemma checkWinConditions_true:
  "fst (checkWinConditions s) \<Longrightarrow> gameEnded (snd (checkWinConditions s))"
  by (simp add: checkWinConditions_def split: if_splits)

lemma checkWinConditions_keeps_ended:
  "gameEnded s \<Longrightarrow> gameEnded (snd (checkWinConditions s))"
  by (simp add: checkWinConditions_def)

lemma step_keeps_ended: "gameEnded s \<Longrightarrow> step s e rs = Inr s' \<Longrightarrow> gameEnded s'"
proof (cases "e = ConfirmChoice")
  case True
  assume "gameEnded s" "step s e rs = Inr s'"
  then show ?thesis
    using True confirmChoice_ended by (auto simp: step_ConfirmChoice simp del: step.simps)
next
  case False
  assume "gameEnded s" "step s e rs = Inr s'"
  then show ?thesis
    using False
    by (cases e; cases "screen s")
      (auto simp: startRockPaperScissors_def Let_def confirmSelections_def showTeamVoting_def
         showPlayerDecision_def castVote_def processVoteResult_def
         checkWinConditions_def showFinalVictoryScreen_def
         completeTurn_def nextTeamLeaderTurn_def selectTeamLeader_def
       split: if_splits option.splits prod.splits)
qed

lemma step_keeps_winner:
  "gameEnded s \<Longrightarrow> step s e rs = Inr s' \<Longrightarrow> winningTeam s' = winningTeam s"
proof (cases "e = ConfirmChoice")
  case True
  assume "gameEnded s" "step s e rs = Inr s'"
  then show ?thesis
    using True confirmChoice_ended by (auto simp: step_ConfirmChoice simp del: step.simps)
next
  case False
  assume "gameEnded s" "step s e rs = Inr s'"
  then show ?thesis
    using False
    by (cases e; cases "screen s")
      (auto simp: startRockPaperScissors_def Let_def confirmSelections_def showTeamVoting_def
         showPlayerDecision_def castVote_def processVoteResult_def
         checkWinConditions_def showFinalVictoryScreen_def
         completeTurn_def nextTeamLeaderTurn_def selectTeamLeader_def
       split: if_splits option.splits prod.splits)
qed

text \<open>
  C10. Once \<open>gameEnded\<close> is set, \<open>checkWinConditions\<close> returns false and changes nothing,
  whatever the scores are; a call that returns true sets \<open>gameEnded\<close>; no input of the
  duel clears \<open>gameEnded\<close> or changes the recorded winner afterwards. So the check
  answers true at most once in a session, and false for a game that has ended.
\<close>

theorem checkWinConditions_true_at_most_once:
  "(gameEnded s \<longrightarrow> checkWinConditions s = (False, s))
   \<and> (fst (checkWinConditions s) \<longrightarrow>
        gameEnded (snd (checkWinConditions s))
        \<and> checkWinConditions (snd (checkWinConditions s)) = (False, snd (checkWinConditions s)))
   \<and> (gameEnded s \<and> step s e rs = Inr s' \<longrightarrow>
        gameEnded s' \<and> winningTeam s' = winningTeam s \<and> \<not> fst (checkWinConditions s'))"
  using checkWinConditions_ended checkWinConditions_true step_keeps_ended step_keeps_winner
  by (metis fst_conv)

theorem checkWinConditions_true_at_most_once_witness:
  "gameEnded ((duelWith \<lparr>goodTeam = 4, badTeam = 0, ties = 0\<rparr> \<lparr>good = 4, bad = 3\<rparr>)
              \<lparr>gameEnded := True, winningTeam := Some GoodTeam\<rparr>)
   \<and> good (winThresholds (duelWith \<lparr>goodTeam = 4, badTeam = 0, ties = 0\<rparr> \<lparr>good = 4, bad = 3\<rparr>))
       \<le> goodTeam (gameScore (duelWith \<lparr>goodTeam = 4, badTeam = 0, ties = 0\<rparr> \<lparr>good = 4, bad = 3\<rparr>))
   \<and> fst (checkWinConditions (duelWith \<lparr>goodTeam = 4, badTeam = 0, ties = 0\<rparr> \<lparr>good = 4, bad = 3\<rparr>))
   \<and> checkWinConditions ((duelWith \<lparr>goodTeam = 4, badTeam = 0, ties = 0\<rparr> \<lparr>good = 4, bad = 3\<rparr>)
                            \<lparr>gameEnded := True, winningTeam := Some GoodTeam\<rparr>)
       = (False, (duelWith \<lparr>goodTeam = 4, badTeam = 0, ties = 0\<rparr> \<lparr>good = 4, bad = 3\<rparr>)
                   \<lparr>gameEnded := True, winningTeam := Some GoodTeam\<rparr>)
   \<and> snd (checkWinConditions (duelWith \<lparr>goodTeam = 4, badTeam = 0, ties = 0\<rparr> \<lparr>good = 4, bad = 3\<rparr>))
       = (duelWith \<lparr>goodTeam = 4, badTeam = 0, ties = 0\<rparr> \<lparr>good = 4, bad = 3\<rparr>)
           \<lparr>gameEnded := True, winningTeam := Some GoodTeam\<rparr>"
  using checkWinConditions_true_at_most_once
    [of "(duelWith \<lparr>goodTeam = 4, badTeam = 0, ties = 0\<rparr> \<lparr>good = 4, bad = 3\<rparr>)
           \<lparr>gameEnded := True, winningTeam := Some GoodTeam\<rparr>"]
  by (simp add: duelWith_def newDuel_def checkWinConditions_def)

section \<open>Resolution of a turn and the score\<close>

lemma updateScore_tie:
  "updateScore (Some Tie) coin sc =
     (if ties sc + 1 = 3 then
        (if rnd_val coin < 1 / 2 then sc\<lparr>ties := 3, goodTeam := goodTeam sc + 1\<rparr>
         else sc\<lparr>ties := 3, badTeam := badTeam sc + 1\<rparr>)
      else if ties sc + 1 = 4 then sc\<lparr>ties := 4, goodTeam := goodTeam sc + 1\<rparr>
      else sc\<lparr>ties := ties sc + 1\<rparr>)"
  by (simp add: updateScore_def Let_def)

lemma updateScore_sum:
  "ties (updateScore (Some r) coin sc) = ties sc + (if r = Tie then 1 else 0)
   \<and> goodTeam (updateScore (Some r) coin sc) + badTeam (updateScore (Some r) coin sc) + bonus (ties sc)
       = goodTeam sc + badTeam sc + (if r = Tie then 0 else 1)
         + bonus (ties (updateScore (Some r) coin sc))"
  by (cases r) (auto simp: updateScore_def Let_def bonus_def)

lemma scoreAfter_sum:
  "ties (scoreAfter sc turns) = ties sc + length (filter (\<lambda>t. fst t = Tie) turns)
   \<and> goodTeam (scoreAfter sc turns) + badTeam (scoreAfter sc turns) + bonus (ties sc)
       = goodTeam sc + badTeam sc + length (filter (\<lambda>t. fst t \<noteq> Tie) turns)
         + bonus (ties (scoreAfter sc turns))"
proof (induction turns arbitrary: sc)
  case Nil
  show ?case by (simp add: scoreAfter_def)
next
  case (Cons t turns)
  let ?sc1 = "updateScore (Some (fst t)) (snd t) sc"
  let ?c = "if fst t = Tie then 1 else (0::nat)"
  have unfold: "scoreAfter sc (t # turns) = scoreAfter ?sc1 turns"
    by (simp add: scoreAfter_def)
  have t1: "ties (scoreAfter ?sc1 turns) = ties ?sc1 + length (filter (\<lambda>t. fst t = Tie) turns)"
    and s1: "goodTeam (scoreAfter ?sc1 turns) + badTeam (scoreAfter ?sc1 turns) + bonus (ties ?sc1)
       = goodTeam ?sc1 + badTeam ?sc1 + length (filter (\<lambda>t. fst t \<noteq> Tie) turns)
         + bonus (ties (scoreAfter ?sc1 turns))"
    using Cons.IH [of ?sc1] by blast+
  have t0: "ties ?sc1 = ties sc + ?c"
    and s0: "goodTeam ?sc1 + badTeam ?sc1 + bonus (ties sc)
       = goodTeam sc + badTeam sc + (1 - ?c) + bonus (ties ?sc1)"
    using updateScore_sum [of "fst t" "snd t" sc] by auto
  have l1: "length (filter (\<lambda>t. fst t = Tie) (t # turns))
              = ?c + length (filter (\<lambda>t. fst t = Tie) turns)"
    and l2: "length (filter (\<lambda>t. fst t \<noteq> Tie) (t # turns))
              = (1 - ?c) + length (filter (\<lambda>t. fst t \<noteq> Tie) turns)"
    by simp_all
  show ?case
    unfolding unfold l1 l2 using t1 s1 t0 s0 by linarith
qed

lemma confirmChoice_score:
  "screen s = PlayerDecision (Some p) \<Longrightarrow> aiMove s = Some a \<Longrightarrow>
   \<exists>s'. step s ConfirmChoice rs = Inr s'
        \<and> gameScore s' = updateScore (Some (determineWinner p a)) (rs 0) (gameScore s)"
  by (simp add: confirmChoice_def showDeceptionAnalysis_def Let_def checkWinConditions_def
        showFinalVictoryScreen_def showRegularTurnAnalysis_def)

text \<open>
  C4, as stated, fails: a tie can change a team score. Three players, every draw 0: the
  engine plays rock each turn and the chosen player answers rock three times. After the
  third tie the tie counter is 3 and the Good team has a point, although no turn was won.
\<close>

theorem tie_changes_team_score_counterexample:
  "determineWinner Rock Rock = Tie
   \<and> map_sum id gameScore
       (playFrom threePlayers
          (turnWith Rock @ [(NextTurn, zeroDraws)] @ turnWith Rock @ [(NextTurn, zeroDraws)]))
       = Inr \<lparr>goodTeam = 0, badTeam = 0, ties = 2\<rparr>
   \<and> map_sum id gameScore
       (playFrom threePlayers
          (turnWith Rock @ [(NextTurn, zeroDraws)] @ turnWith Rock @ [(NextTurn, zeroDraws)]
           @ turnWith Rock))
       = Inr \<lparr>goodTeam = 1, badTeam = 0, ties = 3\<rparr>"
  by code_simp

text \<open>
  C4, amended. For the 9 combinations of moves: equal moves tie; otherwise rock beats
  scissors, scissors beats paper and paper beats rock. A win of the chosen player adds
  exactly one point to the Good team and a win of the engine exactly one point to the Bad
  team, and nothing else changes. A tie adds one to the tie counter; it leaves both team
  scores unchanged unless the new tie count is 3 or 4. The confirm button of the chosen
  player's screen updates the score of the duel in exactly this way.
\<close>

theorem resolution_and_score:
  "(determineWinner p a = Tie \<longleftrightarrow> p = a)
   \<and> (determineWinner p a = PlayerWins \<longleftrightarrow>
        (p = Rock \<and> a = Scissors) \<or> (p = Scissors \<and> a = Paper) \<or> (p = Paper \<and> a = Rock))
   \<and> (determineWinner p a = AiWins \<longleftrightarrow>
        (a = Rock \<and> p = Scissors) \<or> (a = Scissors \<and> p = Paper) \<or> (a = Paper \<and> p = Rock))
   \<and> updateScore (Some PlayerWins) coin sc = sc\<lparr>goodTeam := goodTeam sc + 1\<rparr>
   \<and> updateScore (Some AiWins) coin sc = sc\<lparr>badTeam := badTeam sc + 1\<rparr>
   \<and> ties (updateScore (Some Tie) coin sc) = ties sc + 1
   \<and> (ties sc + 1 \<noteq> 3 \<and> ties sc + 1 \<noteq> 4 \<longrightarrow>
        updateScore (Some Tie) coin sc = sc\<lparr>ties := ties sc + 1\<rparr>)
   \<and> (screen s = PlayerDecision (Some p) \<and> aiMove s = Some a \<longrightarrow>
        (\<exists>s'. step s ConfirmChoice rs = Inr s'
              \<and> gameScore s' = updateScore (Some (determineWinner p a)) (rs 0) (gameScore s)))"
proof -
  have "determineWinner p a = Tie \<longleftrightarrow> p = a"
    by (cases p; cases a) (simp_all add: determineWinner_def)
  moreover have "determineWinner p a = PlayerWins \<longleftrightarrow>
        (p = Rock \<and> a = Scissors) \<or> (p = Scissors \<and> a = Paper) \<or> (p = Paper \<and> a = Rock)"
    by (cases p; cases a) (simp_all add: determineWinner_def)
  moreover have "determineWinner p a = AiWins \<longleftrightarrow>
        (a = Rock \<and> p = Scissors) \<or> (a = Scissors \<and> p = Paper) \<or> (a = Paper \<and> p = Rock)"
    by (cases p; cases a) (simp_all add: determineWinner_def)
  moreover have "updateScore (Some PlayerWins) coin sc = sc\<lparr>goodTeam := goodTeam sc + 1\<rparr>"
    by (simp add: updateScore_def)
  moreover have "updateScore (Some AiWins) coin sc = sc\<lparr>badTeam := badTeam sc + 1\<rparr>"
    by (simp add: updateScore_def)
  moreover have "ties (updateScore (Some Tie) coin sc) = ties sc + 1"
    by (simp add: updateScore_tie)
  moreover have "ties sc + 1 \<noteq> 3 \<and> ties sc + 1 \<noteq> 4 \<longrightarrow>
        updateScore (Some Tie) coin sc = sc\<lparr>ties := ties sc + 1\<rparr>"
    by (simp add: updateScore_tie)
  moreover have "screen s = PlayerDecision (Some p) \<and> aiMove s = Some a \<longrightarrow>
        (\<exists>s'. step s ConfirmChoice rs = Inr s'
              \<and> gameScore s' = updateScore (Some (determineWinner p a)) (rs 0) (gameScore s))"
    using confirmChoice_score by blast
  ultimately show ?thesis
    by blast
qed

theorem resolution_and_score_witness:
  "determineWinner Paper Paper = Tie
   \<and> updateScore (Some Tie) (Draw 0 0) \<lparr>goodTeam = 2, badTeam = 1, ties = 0\<rparr>
       = \<lparr>goodTeam = 2, badTeam = 1, ties = 1\<rparr>
   \<and> (\<exists>s'. step ((duelWith \<lparr>goodTeam = 2, badTeam = 1, ties = 0\<rparr> \<lparr>good = 4, bad = 3\<rparr>)
                    \<lparr>aiMove := Some Paper, screen := PlayerDecision (Some Paper)\<rparr>)
                 ConfirmChoice zeroDraws = Inr s'
            \<and> gameScore s' = \<lparr>goodTeam = 2, badTeam = 1, ties = 1\<rparr>)"
  using resolution_and_score
    [of Paper Paper "Draw 0 0" "\<lparr>goodTeam = 2, badTeam = 1, ties = 0\<rparr>"
        "(duelWith \<lparr>goodTeam = 2, badTeam = 1, ties = 0\<rparr> \<lparr>good = 4, bad = 3\<rparr>)
           \<lparr>aiMove := Some Paper, screen := PlayerDecision (Some Paper)\<rparr>" zeroDraws]
  by (simp add: duelWith_def newDuel_def zeroDraws_def)

lemma showDeceptionAnalysis_score:
  "gameScore (showDeceptionAnalysis s rs) = updateScore (gameResult s) (rs 0) (gameScore s)"
  by (simp add: showDeceptionAnalysis_def Let_def checkWinConditions_def
        showFinalVictoryScreen_def showRegularTurnAnalysis_def)

lemma confirmChoice_gameScore:
  "gameScore (confirmChoice s sel rs) =
     (case sel of
        None \<Rightarrow> gameScore s
      | Some m \<Rightarrow>
          updateScore (Some (case aiMove s of None \<Rightarrow> AiWins | Some a \<Rightarrow> determineWinner m a))
            (rs 0) (gameScore s))"
  by (simp add: confirmChoice_def Let_def showDeceptionAnalysis_score split: option.splits)

lemma step_score:
  "step s e rs = Inr s' \<Longrightarrow>
     gameScore s' = (case resolvedTurn s e rs of
                       None \<Rightarrow> gameScore s
                     | Some t \<Rightarrow> updateScore (Some (fst t)) (snd t) (gameScore s))"
proof (cases "e = ConfirmChoice")
  case True
  assume "step s e rs = Inr s'"
  then show ?thesis
    using True
    by (cases "screen s")
      (auto simp: resolvedTurn_def confirmChoice_gameScore split: option.splits)
next
  case False
  assume "step s e rs = Inr s'"
  then show ?thesis
    using False
    by (cases e; cases "screen s")
      (auto simp: resolvedTurn_def startRockPaperScissors_def Let_def confirmSelections_def
         showTeamVoting_def showPlayerDecision_def castVote_def processVoteResult_def
         completeTurn_def nextTeamLeaderTurn_def selectTeamLeader_def checkWinConditions_def
         showFinalVictoryScreen_def
       split: if_splits option.splits prod.splits)
qed

lemma run_score:
  "run s inputs = Inr s' \<Longrightarrow> gameScore s' = scoreAfter (gameScore s) (resolvedTurns s inputs)"
proof (induction inputs arbitrary: s)
  case Nil
  then show ?case by (simp add: scoreAfter_def)
next
  case (Cons i inputs)
  obtain e rs where i: "i = (e, rs)" by (cases i)
  from Cons.prems i obtain s1 where s1: "step s e rs = Inr s1" "run s1 inputs = Inr s'"
    by (auto split: sum.splits)
  have "gameScore s' = scoreAfter (gameScore s1) (resolvedTurns s1 inputs)"
    using Cons.IH [OF s1(2)] .
  then show ?case
    using i s1(1) step_score [OF s1(1)]
    by (cases "resolvedTurn s e rs") (simp_all add: scoreAfter_def)
qed

lemma init_score: "init secretRoles rs = Inr s \<Longrightarrow> gameScore s = \<lparr>goodTeam = 0, badTeam = 0, ties = 0\<rparr>"
  by (auto simp: init_def Let_def setWinThresholds_def convertRolesToTeams_def
        nextTeamLeaderTurn_def checkWinConditions_def selectTeamLeader_def
        showFinalVictoryScreen_def newDuel_def
      split: if_splits option.splits sum.splits prod.splits)

text \<open>
  C5. A tie adds one to the tie counter. When the counter becomes exactly 3, one point
  goes to the Good team if the draw is below one half and to the Bad team otherwise;
  when it becomes exactly 4, one point goes to the Good team; at every other value no
  team score changes. A turn that is not a tie leaves the counter alone. Over any
  sequence of turns from the zero score, the two team scores add up to the number of
  turns won plus one for a tie count of 3 or more plus one for a tie count of 4 or more:
  each bonus is awarded once, and none at 7, 8 or any other count.

  This is the score of the duel. \<^verbatim>\<open>showDeceptionAnalysis()\<close> updates the score of the
  duel in this way with the result of the turn; an input changes the score only when it
  resolves a turn, and then in this way; and in a session, from \<open>init\<close> through any
  inputs, the score is the one that the turns resolved so far give from the zero score,
  so that the tie counter is the number of ties among them and the two team scores add
  up to the number of turns won plus one for each of the counts 3 and 4 that the tie
  counter has reached. In particular no input other than the confirm button of the
  chosen player's screen changes the score, and a click on that button with a move
  selected updates it with the result of that move against the engine's move.
\<close>

theorem tie_break_bonus:
  "updateScore (Some Tie) coin sc =
     (if ties sc + 1 = 3 then
        (if rnd_val coin < 1 / 2 then sc\<lparr>ties := 3, goodTeam := goodTeam sc + 1\<rparr>
         else sc\<lparr>ties := 3, badTeam := badTeam sc + 1\<rparr>)
      else if ties sc + 1 = 4 then sc\<lparr>ties := 4, goodTeam := goodTeam sc + 1\<rparr>
      else sc\<lparr>ties := ties sc + 1\<rparr>)
   \<and> (result \<noteq> Tie \<longrightarrow> ties (updateScore (Some result) coin sc) = ties sc)
   \<and> ties (scoreAfter \<lparr>goodTeam = 0, badTeam = 0, ties = 0\<rparr> turns)
       = length (filter (\<lambda>t. fst t = Tie) turns)
   \<and> goodTeam (scoreAfter \<lparr>goodTeam = 0, badTeam = 0, ties = 0\<rparr> turns)
       + badTeam (scoreAfter \<lparr>goodTeam = 0, badTeam = 0, ties = 0\<rparr> turns)
       = length (filter (\<lambda>t. fst t \<noteq> Tie) turns)
         + (if 3 \<le> length (filter (\<lambda>t. fst t = Tie) turns) then 1 else 0)
         + (if 4 \<le> length (filter (\<lambda>t. fst t = Tie) turns) then 1 else 0)
   \<and> gameScore (showDeceptionAnalysis s rs) = updateScore (gameResult s) (rs 0) (gameScore s)
   \<and> (step s e rs = Inr s' \<longrightarrow>
        gameScore s' = (case resolvedTurn s e rs of
                          None \<Rightarrow> gameScore s
                        | Some t \<Rightarrow> updateScore (Some (fst t)) (snd t) (gameScore s)))
   \<and> (init secretRoles rs0 = Inr s0 \<and> run s0 inputs = Inr sn \<longrightarrow>
        gameScore sn = scoreAfter \<lparr>goodTeam = 0, badTeam = 0, ties = 0\<rparr> (resolvedTurns s0 inputs)
        \<and> ties (gameScore sn) = length (filter (\<lambda>t. fst t = Tie) (resolvedTurns s0 inputs))
        \<and> goodTeam (gameScore sn) + badTeam (gameScore sn)
            = length (filter (\<lambda>t. fst t \<noteq> Tie) (resolvedTurns s0 inputs))
              + (if 3 \<le> ties (gameScore sn) then 1 else 0)
              + (if 4 \<le> ties (gameScore sn) then 1 else 0))
   \<and> (e \<noteq> ConfirmChoice \<and> step s e rs = Inr s' \<longrightarrow> gameScore s' = gameScore s)
   \<and> (screen s = PlayerDecision (Some m) \<and> step s ConfirmChoice rs = Inr s' \<longrightarrow>
        gameScore s' = updateScore
                         (Some (case aiMove s of None \<Rightarrow> AiWins | Some a \<Rightarrow> determineWinner m a))
                         (rs 0) (gameScore s))"
proof -
  let ?zero = "\<lparr>goodTeam = 0, badTeam = 0, ties = 0\<rparr>"
  have sums: "ties (scoreAfter ?zero ts) = length (filter (\<lambda>t. fst t = Tie) ts)
      \<and> goodTeam (scoreAfter ?zero ts) + badTeam (scoreAfter ?zero ts)
          = length (filter (\<lambda>t. fst t \<noteq> Tie) ts)
            + (if 3 \<le> length (filter (\<lambda>t. fst t = Tie) ts) then 1 else 0)
            + (if 4 \<le> length (filter (\<lambda>t. fst t = Tie) ts) then 1 else 0)" for ts
  proof -
    have a: "ties (scoreAfter ?zero ts) = length (filter (\<lambda>t. fst t = Tie) ts)"
      using scoreAfter_sum [of ?zero ts] by simp
    have "goodTeam (scoreAfter ?zero ts) + badTeam (scoreAfter ?zero ts) + bonus 0
            = length (filter (\<lambda>t. fst t \<noteq> Tie) ts) + bonus (ties (scoreAfter ?zero ts))"
      using scoreAfter_sum [of ?zero ts] by simp
    then have "goodTeam (scoreAfter ?zero ts) + badTeam (scoreAfter ?zero ts)
            = length (filter (\<lambda>t. fst t \<noteq> Tie) ts)
              + (if 3 \<le> length (filter (\<lambda>t. fst t = Tie) ts) then 1 else 0)
              + (if 4 \<le> length (filter (\<lambda>t. fst t = Tie) ts) then 1 else 0)"
      unfolding a by (simp add: bonus_def)
    then show ?thesis
      using a by blast
  qed
  have c: "result \<noteq> Tie \<longrightarrow> ties (updateScore (Some result) coin sc) = ties sc"
    using updateScore_sum [of result coin sc] by simp
  have d: "gameScore (showDeceptionAnalysis s rs) = updateScore (gameResult s) (rs 0) (gameScore s)"
    by (rule showDeceptionAnalysis_score)
  have e: "step s e rs = Inr s' \<longrightarrow>
        gameScore s' = (case resolvedTurn s e rs of
                          None \<Rightarrow> gameScore s
                        | Some t \<Rightarrow> updateScore (Some (fst t)) (snd t) (gameScore s))"
    using step_score by blast
  have f: "init secretRoles rs0 = Inr s0 \<and> run s0 inputs = Inr sn \<longrightarrow>
        gameScore sn = scoreAfter ?zero (resolvedTurns s0 inputs)
        \<and> ties (gameScore sn) = length (filter (\<lambda>t. fst t = Tie) (resolvedTurns s0 inputs))
        \<and> goodTeam (gameScore sn) + badTeam (gameScore sn)
            = length (filter (\<lambda>t. fst t \<noteq> Tie) (resolvedTurns s0 inputs))
              + (if 3 \<le> ties (gameScore sn) then 1 else 0)
              + (if 4 \<le> ties (gameScore sn) then 1 else 0)"
  proof
    assume h: "init secretRoles rs0 = Inr s0 \<and> run s0 inputs = Inr sn"
    have "gameScore sn = scoreAfter (gameScore s0) (resolvedTurns s0 inputs)"
      using h run_score by blast
    then have eq: "gameScore sn = scoreAfter ?zero (resolvedTurns s0 inputs)"
      using h init_score [of secretRoles rs0 s0] by simp
    show "gameScore sn = scoreAfter ?zero (resolvedTurns s0 inputs)
        \<and> ties (gameScore sn) = length (filter (\<lambda>t. fst t = Tie) (resolvedTurns s0 inputs))
        \<and> goodTeam (gameScore sn) + badTeam (gameScore sn)
            = length (filter (\<lambda>t. fst t \<noteq> Tie) (resolvedTurns s0 inputs))
              + (if 3 \<le> ties (gameScore sn) then 1 else 0)
              + (if 4 \<le> ties (gameScore sn) then 1 else 0)"
      using sums [of "resolvedTurns s0 inputs"] unfolding eq by simp
  qed
  have g: "e \<noteq> ConfirmChoice \<and> step s e rs = Inr s' \<longrightarrow> gameScore s' = gameScore s"
    using step_score [of s e rs s'] by (simp add: resolvedTurn_def)
  have h: "screen s = PlayerDecision (Some m) \<and> step s ConfirmChoice rs = Inr s' \<longrightarrow>
        gameScore s' = updateScore
                         (Some (case aiMove s of None \<Rightarrow> AiWins | Some a \<Rightarrow> determineWinner m a))
                         (rs 0) (gameScore s)"
    using step_score [of s ConfirmChoice rs s'] by (auto simp: resolvedTurn_def)
  show ?thesis
    using sums [of turns] c d e f g h updateScore_tie [of coin sc] by blast
qed

theorem tie_break_bonus_witness:
  "updateScore (Some Tie) (Draw 0 0) \<lparr>goodTeam = 1, badTeam = 1, ties = 2\<rparr>
     = \<lparr>goodTeam = 2, badTeam = 1, ties = 3\<rparr>
   \<and> updateScore (Some Tie) (Draw 1 0) \<lparr>goodTeam = 1, badTeam = 1, ties = 2\<rparr>
     = \<lparr>goodTeam = 1, badTeam = 2, ties = 3\<rparr>
   \<and> updateScore (Some Tie) (Draw 1 0) \<lparr>goodTeam = 1, badTeam = 2, ties = 3\<rparr>
     = \<lparr>goodTeam = 2, badTeam = 2, ties = 4\<rparr>
   \<and> updateScore (Some Tie) (Draw 0 0) \<lparr>goodTeam = 2, badTeam = 2, ties = 6\<rparr>
     = \<lparr>goodTeam = 2, badTeam = 2, ties = 7\<rparr>
   \<and> PlayerWins \<noteq> Tie
   \<and> ties (updateScore (Some PlayerWins) (Draw 0 0) \<lparr>goodTeam = 1, badTeam = 1, ties = 2\<rparr>) = 2
   \<and> step ((duelWith \<lparr>goodTeam = 1, badTeam = 1, ties = 2\<rparr> \<lparr>good = 4, bad = 3\<rparr>)
              \<lparr>aiMove := Some Rock, screen := PlayerDecision (Some Rock)\<rparr>) ConfirmChoice zeroDraws
       = Inr (projr (step ((duelWith \<lparr>goodTeam = 1, badTeam = 1, ties = 2\<rparr> \<lparr>good = 4, bad = 3\<rparr>)
                             \<lparr>aiMove := Some Rock, screen := PlayerDecision (Some Rock)\<rparr>)
                          ConfirmChoice zeroDraws))
   \<and> gameScore (projr (step ((duelWith \<lparr>goodTeam = 1, badTeam = 1, ties = 2\<rparr> \<lparr>good = 4, bad = 3\<rparr>)
                                 \<lparr>aiMove := Some Rock, screen := PlayerDecision (Some Rock)\<rparr>)
                              ConfirmChoice zeroDraws))
       = \<lparr>goodTeam = 2, badTeam = 1, ties = 3\<rparr>
   \<and> init threePlayers zeroDraws = Inr (projr (init threePlayers zeroDraws))
   \<and> run (projr (init threePlayers zeroDraws)) threeTies
       = Inr (projr (run (projr (init threePlayers zeroDraws)) threeTies))
   \<and> resolvedTurns (projr (init threePlayers zeroDraws)) threeTies
       = [(Tie, Draw 0 0), (Tie, Draw 0 0), (Tie, Draw 0 0)]
   \<and> gameScore (projr (run (projr (init threePlayers zeroDraws)) threeTies))
       = \<lparr>goodTeam = 1, badTeam = 0, ties = 3\<rparr>
   \<and> ClickFinalMove Paper \<noteq> ConfirmChoice
   \<and> step ((duelWith \<lparr>goodTeam = 1, badTeam = 1, ties = 2\<rparr> \<lparr>good = 4, bad = 3\<rparr>)
              \<lparr>aiMove := Some Rock, screen := PlayerDecision (Some Rock)\<rparr>)
            (ClickFinalMove Paper) zeroDraws
       = Inr ((duelWith \<lparr>goodTeam = 1, badTeam = 1, ties = 2\<rparr> \<lparr>good = 4, bad = 3\<rparr>)
                \<lparr>aiMove := Some Rock, screen := PlayerDecision (Some Paper)\<rparr>)
   \<and> gameScore ((duelWith \<lparr>goodTeam = 1, badTeam = 1, ties = 2\<rparr> \<lparr>good = 4, bad = 3\<rparr>)
                   \<lparr>aiMove := Some Rock, screen := PlayerDecision (Some Paper)\<rparr>)
       = \<lparr>goodTeam = 1, badTeam = 1, ties = 2\<rparr>"
proof -
  let ?d = "(duelWith \<lparr>goodTeam = 1, badTeam = 1, ties = 2\<rparr> \<lparr>good = 4, bad = 3\<rparr>)
              \<lparr>aiMove := Some Rock, screen := PlayerDecision (Some Rock)\<rparr>"
  let ?s0 = "projr (init threePlayers zeroDraws)"
  let ?sn = "projr (run ?s0 threeTies)"
  have st: "step ?d ConfirmChoice zeroDraws = Inr (projr (step ?d ConfirmChoice zeroDraws))"
    by simp
  have rt: "resolvedTurn ?d ConfirmChoice zeroDraws = Some (Tie, Draw 0 0)"
    by (simp add: resolvedTurn_def duelWith_def newDuel_def determineWinner_def zeroDraws_def)
  have sc: "gameScore ?d = \<lparr>goodTeam = 1, badTeam = 1, ties = 2\<rparr>"
    by (simp add: duelWith_def newDuel_def)
  have i: "init threePlayers zeroDraws = Inr ?s0"
    by code_simp
  have r: "run ?s0 threeTies = Inr ?sn"
    by code_simp
  have ts: "resolvedTurns ?s0 threeTies = [(Tie, Draw 0 0), (Tie, Draw 0 0), (Tie, Draw 0 0)]"
    by code_simp
  have sa: "scoreAfter \<lparr>goodTeam = 0, badTeam = 0, ties = 0\<rparr>
              [(Tie, Draw 0 0), (Tie, Draw 0 0), (Tie, Draw 0 0)]
            = \<lparr>goodTeam = 1, badTeam = 0, ties = 3\<rparr>"
    by code_simp
  show ?thesis
    using st rt sc i r ts sa
      tie_break_bonus [of "Draw 0 0" "\<lparr>goodTeam = 1, badTeam = 1, ties = 2\<rparr>" PlayerWins "[]"
        ?d zeroDraws ConfirmChoice "projr (step ?d ConfirmChoice zeroDraws)"
        threePlayers zeroDraws ?s0 threeTies ?sn]
      tie_break_bonus [of "Draw 1 0" "\<lparr>goodTeam = 1, badTeam = 1, ties = 2\<rparr>" PlayerWins "[]"]
      tie_break_bonus [of "Draw 1 0" "\<lparr>goodTeam = 1, badTeam = 2, ties = 3\<rparr>" PlayerWins "[]"]
      tie_break_bonus [of "Draw 0 0" "\<lparr>goodTeam = 2, badTeam = 2, ties = 6\<rparr>" PlayerWins "[]"
        ?d zeroDraws "ClickFinalMove Paper" "?d\<lparr>screen := PlayerDecision (Some Paper)\<rparr>"]
    by (simp add: zeroDraws_def)
qed

section \<open>Shuffling and searching\<close>

lemma shuffleLoop_mset:
  "k < length xs \<Longrightarrow> mset (fst (shuffleLoop k xs rs pos)) = mset xs"
proof (induction k arbitrary: xs pos)
  case 0
  show ?case by simp
next
  case (Suc k)
  let ?j = "floor_random (rs pos) (Suc k + 1)"
  have j: "?j < length xs"
    using floor_random_less [of "Suc k + 1" "rs pos"] Suc.prems by simp
  have "mset (xs[Suc k := xs ! ?j, ?j := xs ! Suc k]) = mset xs"
    using mset_swap [OF j Suc.prems] .
  moreover have "k < length (xs[Suc k := xs ! ?j, ?j := xs ! Suc k])"
    using Suc.prems by simp
  ultimately show ?case
    using Suc.IH [of "xs[Suc k := xs ! ?j, ?j := xs ! Suc k]" "pos + 1"]
    by (simp add: Let_def)
qed

lemma shuffleLoop_mset': "mset (fst (shuffleLoop (length xs - 1) xs rs pos)) = mset xs"
proof (cases xs)
  case Nil
  then show ?thesis by simp
next
  case (Cons x ys)
  then show ?thesis using shuffleLoop_mset [of "length xs - 1" xs rs pos] by simp
qed

lemma shuffleLoop_set: "set (fst (shuffleLoop (length xs - 1) xs rs pos)) = set xs"
  using shuffleLoop_mset' [of xs rs pos] by (metis set_mset_mset)

lemma indexOfFrom_member:
  "x \<in> set xs \<Longrightarrow> i \<le> indexOfFrom xs x i \<and> indexOfFrom xs x i < i + int (length xs)
     \<and> xs ! nat (indexOfFrom xs x i - i) = x"
proof (induction xs arbitrary: i)
  case Nil
  then show ?case by simp
next
  case (Cons y ys)
  show ?case
  proof (cases "y = x")
    case True
    then show ?thesis by simp
  next
    case False
    then have "x \<in> set ys" using Cons.prems by simp
    from Cons.IH [OF this, of "i + 1"]
    have a: "i + 1 \<le> indexOfFrom ys x (i + 1)"
      and b: "indexOfFrom ys x (i + 1) < i + 1 + int (length ys)"
      and c: "ys ! nat (indexOfFrom ys x (i + 1) - (i + 1)) = x"
      by blast+
    have "nat (indexOfFrom ys x (i + 1) - i) = Suc (nat (indexOfFrom ys x (i + 1) - (i + 1)))"
      using a by arith
    then show ?thesis
      using False a b c by simp
  qed
qed

lemma elemAt_indexOf: "x \<in> set xs \<Longrightarrow> elemAt xs (indexOf xs x) = Some x"
  using indexOfFrom_member [of x xs 0] by (simp add: elemAt_def indexOf_def)


section \<open>The invariant of the duel\<close>

lemma rotation_length: "mset rot = mset [0..<n] \<Longrightarrow> length rot = n"
  using mset_eq_length by fastforce

lemma rotation_nth: "mset rot = mset [0..<n] \<Longrightarrow> i < n \<Longrightarrow> rot ! i < n"
proof -
  assume m: "mset rot = mset [0..<n]" and i: "i < n"
  have "rot ! i \<in> set rot"
    using rotation_length [OF m] i by simp
  moreover have "set rot = set [0..<n]"
    using m by (rule mset_eq_setD)
  ultimately show ?thesis by simp
qed

lemma selectTeamLeader_ok:
  assumes "mset (teamLeaderRotation s) = mset [0..<length (players s)]"
    and "currentTeamLeaderIndex s < length (players s)"
  shows "selectTeamLeader s =
           Inr (s\<lparr>teamLeader := Some (players s ! (teamLeaderRotation s ! currentTeamLeaderIndex s)),
                  screen := TeamLeaderScreen\<rparr>)"
  using assms rotation_length [OF assms(1)] rotation_nth [OF assms(1) assms(2)]
  by (simp add: selectTeamLeader_def elemAt_def)

lemma thresholds_positive: "thresholds n = Some t \<Longrightarrow> 0 < good t \<and> 0 < bad t \<and> 3 \<le> n \<and> n \<le> 8"
  by (auto simp: thresholds_def split: if_splits)

lemma init_invariant: "init secretRoles rs = Inr s \<Longrightarrow> invariant s"
proof -
  assume i: "init secretRoles rs = Inr s"
  let ?n = "length secretRoles"
  let ?conv = "map (\<lambda>p. p\<lparr>team := Some (if role p = Bad then BadTeam else GoodTeam)\<rparr>) secretRoles"
  let ?rot = "fst (shuffleLoop (length [0..<?n] - 1) [0..<?n] rs 0)"
  from i obtain t where t: "thresholds ?n = Some t"
    by (auto simp: init_def Let_def setWinThresholds_def newDuel_def split: if_splits option.splits)
  define s3 where "s3 = newDuel\<lparr>players := ?conv, winThresholds := t, teamLeaderRotation := ?rot,
                                currentTeamLeaderIndex := 0\<rparr>"
  have n: "3 \<le> ?n" and pos: "0 < good t" "0 < bad t"
    using thresholds_positive [OF t] by auto
  have rot: "mset (teamLeaderRotation s3) = mset [0..<length (players s3)]"
    using shuffleLoop_mset' [of "[0..<?n]" rs 0] by (simp add: s3_def)
  have idx: "currentTeamLeaderIndex s3 < length (players s3)"
    using n by (cases secretRoles) (simp_all add: s3_def)
  have chk: "checkWinConditions s3 = (False, s3)"
    using pos by (simp add: checkWinConditions_def s3_def newDuel_def)
  have "init secretRoles rs = nextTeamLeaderTurn s3"
    using t n i
    by (auto simp: init_def Let_def setWinThresholds_def convertRolesToTeams_def s3_def newDuel_def
          split: if_splits)
  then have "s = s3\<lparr>teamLeader := Some (players s3 ! (teamLeaderRotation s3 ! currentTeamLeaderIndex s3)),
                     screen := TeamLeaderScreen\<rparr>"
    using i chk selectTeamLeader_ok [OF rot idx] by (simp add: nextTeamLeaderTurn_def)
  then show ?thesis
    using rot idx t pos
    by (simp add: invariant_def screen_ok_def s3_def newDuel_def)
qed


lemma renderPlayerSelection_ok:
  "opt \<in> set (renderPlayerSelection s rs pos) \<Longrightarrow> consoleOption_ok s opt"
proof -
  let ?el = "filter (\<lambda>player. Some player \<noteq> teamLeader s) (players s)"
  assume "opt \<in> set (renderPlayerSelection s rs pos)"
  then obtain p where p: "p \<in> set (fst (shuffleLoop (length ?el - 1) ?el rs pos))"
    and opt: "opt = \<lparr>dataPlayer = indexOf (players s) p, disabled = (lastSelectedPlayer s = Some p)\<rparr>"
    by (auto simp: renderPlayerSelection_def Let_def)
  from p have "p \<in> set ?el"
    using shuffleLoop_set [of ?el rs pos] by simp
  then show ?thesis
    using opt by (auto simp: consoleOption_ok_def)
qed

lemma availablePlayers_eligible:
  "length (availablePlayers s) = 1 \<Longrightarrow> eligibleActor s (Some (availablePlayers s ! 0))"
proof -
  assume "length (availablePlayers s) = 1"
  then have "availablePlayers s ! 0 \<in> set (availablePlayers s)"
    by simp
  then show ?thesis
    by (auto simp: availablePlayers_def eligibleActor_def)
qed

lemma consoleOption_ok_frame [simp]:
  "consoleOption_ok (s\<lparr>screen := scr\<rparr>) opt = consoleOption_ok s opt"
  "consoleOption_ok (s\<lparr>aiMove := m\<rparr>) opt = consoleOption_ok s opt"
  by (simp_all add: consoleOption_ok_def)

lemma eligibleActor_frame [simp]:
  "eligibleActor (s\<lparr>screen := scr\<rparr>) x = eligibleActor s x"
  "eligibleActor (s\<lparr>aiMove := m\<rparr>) x = eligibleActor s x"
  by (simp_all add: eligibleActor_def)

lemma aiMove_frame [simp]:
  "availablePlayers (s\<lparr>aiMove := m\<rparr>) = availablePlayers s"
  "renderPlayerSelection (s\<lparr>aiMove := m\<rparr>) rs pos = renderPlayerSelection s rs pos"
  by (simp_all add: availablePlayers_def renderPlayerSelection_def)

lemma startRockPaperScissors_invariant:
  assumes "invariant s"
  shows "invariant (startRockPaperScissors s rs)"
proof -
  have a: "\<forall>opt \<in> set (renderPlayerSelection s rs (Suc 0)). consoleOption_ok s opt"
    using renderPlayerSelection_ok by blast
  have b: "length (availablePlayers s) = Suc 0 \<longrightarrow> eligibleActor s (Some (availablePlayers s ! 0))"
    using availablePlayers_eligible by simp
  show ?thesis
    using assms a b
    by (auto simp: invariant_def startRockPaperScissors_def Let_def screen_ok_def)
qed

lemma confirmChoice_invariant:
  assumes "invariant s"
  shows "invariant (confirmChoice s sel rs)"
proof (cases sel)
  case None
  then show ?thesis
    using assms by (simp add: confirmChoice_def)
next
  case (Some m)
  let ?s1 = "s\<lparr>playerMove := Some m,
                gameResult := Some (case aiMove s of None \<Rightarrow> AiWins | Some a \<Rightarrow> determineWinner m a)\<rparr>"
  let ?sc = "updateScore (gameResult ?s1) (rs 0) (gameScore s)"
  have c: "confirmChoice s sel rs = showDeceptionAnalysis ?s1 rs"
    using Some by (simp add: confirmChoice_def Let_def)
  have mono: "goodTeam (gameScore s) \<le> goodTeam ?sc \<and> badTeam (gameScore s) \<le> badTeam ?sc"
    by (simp add: updateScore_def Let_def)
  have ended: "gameEnded (showDeceptionAnalysis ?s1 rs)
                 \<longleftrightarrow> good (winThresholds s) \<le> goodTeam ?sc \<or> bad (winThresholds s) \<le> badTeam ?sc"
    using assms mono
    by (auto simp: invariant_def showDeceptionAnalysis_def Let_def checkWinConditions_def
          showFinalVictoryScreen_def showRegularTurnAnalysis_def)
  have scr: "screen_ok (showDeceptionAnalysis ?s1 rs)"
    using showDeceptionAnalysis_fields(10) [of ?s1 rs] by (auto simp: screen_ok_def)
  show ?thesis
    unfolding c
    using assms ended scr showDeceptionAnalysis_fields(11) [of ?s1 rs]
    by (simp add: invariant_def showDeceptionAnalysis_fields showDeceptionAnalysis_score)
qed

lemma step_invariant:
  assumes "invariant s" and "step s e rs = Inr s'"
  shows "invariant s'"
proof (cases e)
  case StartTurn
  then show ?thesis
    using assms startRockPaperScissors_invariant [of s rs]
    by (cases "screen s") auto
next
  case (ClickTeammate k)
  show ?thesis
  proof (cases "screen s")
    case (StrategicConsole opts sel mv)
    show ?thesis
    proof (cases "k < length opts \<and> \<not> disabled (opts ! k)")
      case True
      then have "consoleOption_ok s (opts ! k)"
        using assms(1) StrategicConsole by (simp add: invariant_def screen_ok_def)
      then obtain p where p: "p \<in> set (players s)" "Some p \<noteq> teamLeader s"
          "dataPlayer (opts ! k) = indexOf (players s) p" "lastSelectedPlayer s \<noteq> Some p"
        using True by (auto simp: consoleOption_ok_def)
      have "elemAt (players s) (dataPlayer (opts ! k)) = Some p"
        using p elemAt_indexOf by simp
      moreover have "eligibleActor s (Some p)"
        using p by (auto simp: eligibleActor_def)
      ultimately show ?thesis
        using assms ClickTeammate StrategicConsole True
        by (auto simp: invariant_def screen_ok_def consoleOption_ok_def eligibleActor_def)
    next
      case False
      then show ?thesis
        using assms ClickTeammate StrategicConsole by auto
    qed
  qed (use assms ClickTeammate in auto)
next
  case (ClickSuggestion m)
  then show ?thesis
    using assms
    by (cases "screen s")
      (auto simp: invariant_def screen_ok_def consoleOption_ok_def eligibleActor_def)
next
  case ConfirmSelections
  then show ?thesis
    using assms
    by (cases "screen s")
      (auto simp: invariant_def screen_ok_def eligibleActor_def confirmSelections_def Let_def
         showTeamVoting_def showPlayerDecision_def shouldVote_def split: if_splits)
next
  case VoteYes
  then show ?thesis
    using assms
    by (cases "screen s")
      (auto simp: invariant_def screen_ok_def eligibleActor_def castVote_def Let_def
         processVoteResult_def split: if_splits)
next
  case VoteNo
  then show ?thesis
    using assms
    by (cases "screen s")
      (auto simp: invariant_def screen_ok_def eligibleActor_def castVote_def Let_def
         processVoteResult_def split: if_splits)
next
  case ContinueVote
  show ?thesis
  proof (cases "screen s")
    case (VoteResult approved y n)
    show ?thesis
    proof (cases approved)
      case True
      then show ?thesis
        using assms ContinueVote VoteResult
        by (auto simp: invariant_def screen_ok_def eligibleActor_def showPlayerDecision_def)
    next
      case False
      then show ?thesis
        using assms ContinueVote VoteResult startRockPaperScissors_invariant [of s rs]
        by auto
    qed
  qed (use assms ContinueVote in auto)
next
  case (ClickFinalMove m)
  then show ?thesis
    using assms
    by (cases "screen s") (auto simp: invariant_def screen_ok_def eligibleActor_def)
next
  case ConfirmChoice
  then show ?thesis
    using assms confirmChoice_invariant [of s _ rs]
    by (cases "screen s") auto
next
  case NextTurn
  show ?thesis
  proof (cases "screen s")
    case TurnAnalysis
    let ?s1 = "s\<lparr>lastSelectedPlayer := chosenPlayer s,
                  currentTeamLeaderIndex :=
                    (currentTeamLeaderIndex s + 1) mod length (teamLeaderRotation s)\<rparr>"
    have len: "length (teamLeaderRotation s) = length (players s)"
      using assms(1) rotation_length by (simp add: invariant_def)
    have n: "0 < length (players s)"
      using assms(1) by (auto simp: invariant_def)
    have rot: "mset (teamLeaderRotation ?s1) = mset [0..<length (players ?s1)]"
      using assms(1) by (simp add: invariant_def)
    have idx: "currentTeamLeaderIndex ?s1 < length (players ?s1)"
      using len n by simp
    have chk: "checkWinConditions ?s1 = (False, ?s1)"
      using assms(1) TurnAnalysis by (auto simp: invariant_def checkWinConditions_def)
    have "s' = ?s1\<lparr>teamLeader := Some (players ?s1 ! (teamLeaderRotation ?s1 ! currentTeamLeaderIndex ?s1)),
                     screen := TeamLeaderScreen\<rparr>"
      using assms(2) NextTurn TurnAnalysis chk selectTeamLeader_ok [OF rot idx]
      by (simp add: completeTurn_def nextTeamLeaderTurn_def)
    then show ?thesis
      using assms(1) TurnAnalysis idx
      by (auto simp: invariant_def screen_ok_def)
  qed (use assms NextTurn in auto)
qed

lemma reachable_invariant: "reachable s \<Longrightarrow> invariant s"
  by (induction rule: reachable.induct) (auto intro: init_invariant step_invariant)

section \<open>Scores, thresholds and the end of the duel\<close>

lemma invariantD:
  assumes "invariant s"
  shows "thresholds (length (players s)) = Some (winThresholds s)"
    and "screen s = FinalVictory \<longrightarrow> gameEnded s"
    and "gameEnded s \<longleftrightarrow> good (winThresholds s) \<le> goodTeam (gameScore s)
                          \<or> bad (winThresholds s) \<le> badTeam (gameScore s)"
    and "mset (teamLeaderRotation s) = mset [0..<length (players s)]"
    and "currentTeamLeaderIndex s < length (players s)"
    and "teamLeader s = Some (players s ! (teamLeaderRotation s ! currentTeamLeaderIndex s))"
    and "\<not> completedFirstRound s"
    and "screen_ok s"
  using assms unfolding invariant_def by blast+

lemma step_monotone:
  "step s e rs = Inr s' \<Longrightarrow>
     goodTeam (gameScore s) \<le> goodTeam (gameScore s')
     \<and> badTeam (gameScore s) \<le> badTeam (gameScore s')
     \<and> ties (gameScore s) \<le> ties (gameScore s')
     \<and> winThresholds s' = winThresholds s \<and> players s' = players s"
proof (cases "e = ConfirmChoice")
  case True
  assume "step s e rs = Inr s'"
  then have s': "s' = confirmChoice s (case screen s of PlayerDecision sel \<Rightarrow> sel | _ \<Rightarrow> playerMove s) rs"
    using True by (simp add: step_ConfirmChoice del: step.simps)
  have "goodTeam sc \<le> goodTeam (updateScore r c sc) \<and> badTeam sc \<le> badTeam (updateScore r c sc)
          \<and> ties sc \<le> ties (updateScore r c sc)" for r c sc
    by (simp add: updateScore_def Let_def)
  then show ?thesis
    unfolding s' by (simp add: confirmChoice_fields confirmChoice_gameScore split: option.splits)
next
  case False
  assume "step s e rs = Inr s'"
  then show ?thesis
    using False
    by (cases e; cases "screen s")
      (auto simp: startRockPaperScissors_def Let_def confirmSelections_def showTeamVoting_def
         showPlayerDecision_def castVote_def processVoteResult_def
         checkWinConditions_def showFinalVictoryScreen_def
         completeTurn_def nextTeamLeaderTurn_def selectTeamLeader_def
       split: if_splits option.splits prod.splits)
qed

lemma step_progress: "invariant s \<Longrightarrow> \<exists>s'. step s e rs = Inr s'"
proof (cases "e = NextTurn \<and> screen s = TurnAnalysis")
  case False
  then show ?thesis
    by (cases e; cases "screen s") auto
next
  case True
  assume inv: "invariant s"
  let ?s1 = "s\<lparr>lastSelectedPlayer := chosenPlayer s,
                currentTeamLeaderIndex :=
                  (currentTeamLeaderIndex s + 1) mod length (teamLeaderRotation s)\<rparr>"
  have len: "length (teamLeaderRotation s) = length (players s)"
    using inv rotation_length by (simp add: invariant_def)
  have n: "0 < length (players s)"
    using inv by (auto simp: invariant_def)
  have rot: "mset (teamLeaderRotation ?s1) = mset [0..<length (players ?s1)]"
    using inv by (simp add: invariant_def)
  have idx: "currentTeamLeaderIndex ?s1 < length (players ?s1)"
    using len n by simp
  have chk: "checkWinConditions ?s1 = (False, ?s1)"
    using inv True by (auto simp: invariant_def checkWinConditions_def)
  show ?thesis
    using True chk selectTeamLeader_ok [OF rot idx]
    by (simp add: completeTurn_def nextTeamLeaderTurn_def)
qed




lemma ended_iff_threshold:
  "reachable s \<Longrightarrow>
     gameEnded s \<longleftrightarrow> good (winThresholds s) \<le> goodTeam (gameScore s)
                     \<or> bad (winThresholds s) \<le> badTeam (gameScore s)"
  using reachable_invariant invariantD(3) by blast

text \<open>
  C3 fails for a double click. Three players, every draw 0. The Good team wins three
  turns, and in the fourth turn the chosen player selects paper against the engine's rock
  and clicks the confirm button twice while the screen is still shown. When the first
  run of the handler ends, the Good score is 4, the threshold for three players: the
  duel has ended, the Good team is the winner and the victory screen is shown. When the
  second run ends, the Good score is 5: the score has changed after the end of the duel.
\<close>

theorem double_click_scores_after_the_end:
  "map_sum id (\<lambda>s. (gameEnded s, winningTeam s, gameScore s, winThresholds s, screen s))
     (playFrom threePlayers goodWins)
     = Inr (True, Some GoodTeam, \<lparr>goodTeam = 4, badTeam = 0, ties = 0\<rparr>,
            \<lparr>good = 4, bad = 3\<rparr>, FinalVictory)
   \<and> map_sum id (\<lambda>s. (gameEnded s, winningTeam s, gameScore s, winThresholds s))
     (playFrom threePlayers (goodWins @ [(ConfirmChoice, zeroDraws)]))
     = Inr (True, Some GoodTeam, \<lparr>goodTeam = 5, badTeam = 0, ties = 0\<rparr>, \<lparr>good = 4, bad = 3\<rparr>)"
  by code_simp

section \<open>The choice of the actor\<close>









section \<open>The intervention vote\<close>

lemma no_vote_screen:
  "reachable s \<Longrightarrow> (\<forall>a b. screen s \<noteq> TeamVoting a b) \<and> (\<forall>a b c. screen s \<noteq> VoteResult a b c)"
proof (induction rule: reachable.induct)
  case (reachable_init secretRoles rs s)
  then show ?case
    by (auto simp: init_def Let_def nextTeamLeaderTurn_def selectTeamLeader_def
          showFinalVictoryScreen_def
          split: if_splits sum.splits prod.splits option.splits)
next
  case (reachable_step s e rs s')
  have nc: "\<not> completedFirstRound s"
    using reachable_invariant [OF reachable_step.hyps(1)] invariantD(7) by blast
  show ?case
  proof (cases "e = ConfirmChoice")
    case True
    then have "s' = confirmChoice s (case screen s of PlayerDecision sel \<Rightarrow> sel | _ \<Rightarrow> playerMove s) rs"
      using reachable_step.hyps(2) by (simp add: step_ConfirmChoice del: step.simps)
    then have "screen s' = screen s \<or> screen s' = TurnAnalysis \<or> screen s' = FinalVictory"
      using confirmChoice_screen by simp
    then show ?thesis
      using reachable_step.IH by (elim disjE) simp_all
  next
    case False
    then show ?thesis
      using reachable_step.hyps(2) reachable_step.IH nc
      by (cases e; cases "screen s")
        (auto simp: startRockPaperScissors_def Let_def confirmSelections_def shouldVote_def
           showPlayerDecision_def showFinalVictoryScreen_def completeTurn_def
           nextTeamLeaderTurn_def selectTeamLeader_def
         split: if_splits option.splits prod.splits)
  qed
qed

lemma completedFirstRound_never_set:
  "reachable s \<Longrightarrow> \<not> completedFirstRound s \<and> \<not> shouldVote s r"
  using reachable_invariant invariantD(7) by (auto simp: shouldVote_def)

text \<open>
  C2. Five players; the first turn is completed without a win and the next turn is
  started. In the second turn the leader confirms the selections and the draw read by
  \<^verbatim>\<open>Math.random() < 0.3\<close> is 0: the flag \<open>completedFirstRound\<close> is still false and the
  duel goes on to the chosen player's screen, not to the vote. No handler ever sets the
  flag, so the vote (\<open>no_vote_screen\<close>) is never reached.
\<close>

theorem intervention_vote_never_activates:
  "map_sum id (\<lambda>s. (completedFirstRound s, length (players s), screen s))
     (playFrom fivePlayers secondConfirm) = Inr (False, 5, PlayerDecision None)
   \<and> rnd_val (zeroDraws 0) < 3 / 10"
proof -
  have "map_sum id (\<lambda>s. (completedFirstRound s, length (players s), screen s))
     (playFrom fivePlayers secondConfirm) = Inr (False, 5, PlayerDecision None)"
    by code_simp
  moreover have "rnd_val (zeroDraws 0) < 3 / 10"
    by (simp add: zeroDraws_def)
  ultimately show ?thesis
    by blast
qed

section \<open>Who sees the engine's move\<close>

text \<open>
  C1, as stated, fails: the leader's console shows the engine's move. Two first turns
  that differ only in the draw for the engine's move give consoles that differ, and the
  difference is the engine's move itself.
\<close>

theorem console_shows_engine_move_counterexample:
  "map_sum id view (playFrom threePlayers [(StartTurn, engineDraws (Draw 0 0))])
     = Inr (StrategicConsoleView (Some Rock)
              [(Some ''Player'', 2, False), (Some ''Player'', 0, False)])
   \<and> map_sum id view (playFrom threePlayers [(StartTurn, engineDraws (Draw 1 1))])
     = Inr (StrategicConsoleView (Some Paper)
              [(Some ''Player'', 2, False), (Some ''Player'', 0, False)])"
  by code_simp

text \<open>
  C1, amended. The console of the leader shows the engine's move of the turn. No other
  screen shows it or depends on it: changing the stored engine move changes nothing of
  what the leader announcement, the team vote, the vote result, the chosen player's
  screen, the turn summary or the victory screen display, and the screen that follows
  the leader's confirmation is the same whatever the engine's move is.
\<close>

theorem engine_move_shown_on_console_only:
  "(screen s = StrategicConsole opts sel mv \<longrightarrow>
      (\<exists>shown. view s = StrategicConsoleView (aiMove s) shown))
   \<and> ((\<forall>opts sel mv. screen s \<noteq> StrategicConsole opts sel mv) \<longrightarrow>
        view (s\<lparr>aiMove := m\<rparr>) = view s)
   \<and> (sel \<noteq> None \<and> mv \<noteq> None \<longrightarrow>
        view (confirmSelections (s\<lparr>aiMove := m\<rparr>) sel mv rs) = view (confirmSelections s sel mv rs))"
proof -
  have a: "screen s = StrategicConsole opts sel mv \<longrightarrow>
      (\<exists>shown. view s = StrategicConsoleView (aiMove s) shown)"
    by (simp add: view_def)
  have b: "(\<forall>opts sel mv. screen s \<noteq> StrategicConsole opts sel mv) \<longrightarrow>
        view (s\<lparr>aiMove := m\<rparr>) = view s"
    by (cases "screen s") (auto simp: view_def split: option.splits)
  have c: "sel \<noteq> None \<and> mv \<noteq> None \<longrightarrow>
        view (confirmSelections (s\<lparr>aiMove := m\<rparr>) sel mv rs) = view (confirmSelections s sel mv rs)"
    by (auto simp: confirmSelections_def Let_def shouldVote_def showTeamVoting_def
          showPlayerDecision_def view_def split: option.splits)
  show ?thesis
    using a b c by blast
qed

theorem engine_move_shown_on_console_only_witness:
  "screen (projr (playFrom threePlayers secondConfirm)) = PlayerDecision None
   \<and> view ((projr (playFrom threePlayers secondConfirm))\<lparr>aiMove := Some Scissors\<rparr>)
       = view (projr (playFrom threePlayers secondConfirm))
   \<and> aiMove (projr (playFrom threePlayers secondConfirm)) = Some Rock
   \<and> screen (projr (playFrom threePlayers secondConsole))
       = StrategicConsole [\<lparr>dataPlayer = 1, disabled = False\<rparr>, \<lparr>dataPlayer = 0, disabled = True\<rparr>]
           (Some ((examplePlayer 1 Bad)\<lparr>team := Some BadTeam\<rparr>)) None
   \<and> (\<exists>shown. view (projr (playFrom threePlayers secondConsole))
                  = StrategicConsoleView (aiMove (projr (playFrom threePlayers secondConsole))) shown)"
proof -
  let ?s = "projr (playFrom threePlayers secondConfirm)"
  let ?c = "projr (playFrom threePlayers secondConsole)"
  have scr: "screen ?s = PlayerDecision None"
    by code_simp
  have ai: "aiMove ?s = Some Rock"
    by code_simp
  have con: "screen ?c = StrategicConsole [\<lparr>dataPlayer = 1, disabled = False\<rparr>, \<lparr>dataPlayer = 0, disabled = True\<rparr>]
           (Some ((examplePlayer 1 Bad)\<lparr>team := Some BadTeam\<rparr>)) None"
    by code_simp
  show ?thesis
    using scr ai con
      engine_move_shown_on_console_only [of ?s _ _ _ "Some Scissors"]
      engine_move_shown_on_console_only [of ?c "[\<lparr>dataPlayer = 1, disabled = False\<rparr>, \<lparr>dataPlayer = 0, disabled = True\<rparr>]"
           "Some ((examplePlayer 1 Bad)\<lparr>team := Some BadTeam\<rparr>)" None]
    by simp
qed

section \<open>Role assignment\<close>

lemma selectBadPlayers_result:
  assumes "selectBadPlayers rs n k acc pos = Some y"
  shows "0 < n \<longrightarrow> badSpec acc n \<longrightarrow> length acc \<le> k \<longrightarrow>
       badSpec (fst y) n \<and> length (fst y) = k \<and> pos \<le> snd y"
proof (rule selectBadPlayers.raw_induct
    [where P = "\<lambda>rs n k acc pos y. 0 < n \<longrightarrow> badSpec acc n \<longrightarrow> length acc \<le> k \<longrightarrow>
                  badSpec (fst y) n \<and> length (fst y) = k \<and> pos \<le> snd y",
     OF _ assms], goal_cases)
  case (1 f rs n k acc pos y)
  show ?case
  proof (intro impI)
    assume n: "0 < n" and spec: "badSpec acc n" and len: "length acc \<le> k"
    show "badSpec (fst y) n \<and> length (fst y) = k \<and> pos \<le> snd y"
    proof (cases "length acc < k")
      case False
      then show ?thesis
        using "1"(2) spec len by auto
    next
      case True
      let ?i = "floor_random (rs pos) n"
      have i: "?i < n"
        using n by (rule floor_random_less)
      show ?thesis
      proof (cases "?i \<in> set acc")
        case in_acc: True
        then have "f rs n k acc (pos + 1) = Some y"
          using "1"(2) True by (simp add: Let_def)
        from "1"(1) [OF this] n spec len show ?thesis
          by auto
      next
        case new: False
        then have call: "f rs n k (acc @ [?i]) (pos + 1) = Some y"
          using "1"(2) True by (simp add: Let_def)
        have "badSpec (acc @ [?i]) n"
          using spec new i by (auto simp: badSpec_def)
        moreover have "length (acc @ [?i]) \<le> k"
          using True by simp
        ultimately show ?thesis
          using "1"(1) [OF call] n by auto
      qed
    qed
  qed
qed

lemma selectBadPlayers_terminates:
  "k \<le> card (set acc \<union> (\<lambda>j. floor_random (rs j) n) ` {pos..<pos + m}) \<Longrightarrow>
     \<exists>y. selectBadPlayers rs n k acc pos = Some y"
proof (induction m arbitrary: acc pos)
  case 0
  have "card (set acc) \<le> length acc"
    by (rule card_length)
  then have "\<not> length acc < k"
    using "0.prems" by simp
  then show ?case
    by (subst selectBadPlayers.simps) simp
next
  case (Suc m)
  let ?f = "\<lambda>j. floor_random (rs j) n"
  show ?case
  proof (cases "length acc < k")
    case False
    then show ?thesis
      by (subst selectBadPlayers.simps) simp
  next
    case True
    have range: "{pos..<pos + Suc m} = insert pos {pos + 1..<pos + 1 + m}"
      by auto
    show ?thesis
    proof (cases "?f pos \<in> set acc")
      case in_acc: True
      then have "set acc \<union> ?f ` {pos + 1..<pos + 1 + m} = set acc \<union> ?f ` {pos..<pos + Suc m}"
        unfolding range by auto
      then have "k \<le> card (set acc \<union> ?f ` {pos + 1..<pos + 1 + m})"
        using Suc.prems by simp
      from Suc.IH [OF this] obtain y where "selectBadPlayers rs n k acc (pos + 1) = Some y"
        by blast
      then show ?thesis
        using True in_acc by (subst selectBadPlayers.simps) (simp add: Let_def)
    next
      case new: False
      have "set (acc @ [?f pos]) \<union> ?f ` {pos + 1..<pos + 1 + m}
              = set acc \<union> ?f ` {pos..<pos + Suc m}"
        unfolding range by auto
      then have "k \<le> card (set (acc @ [?f pos]) \<union> ?f ` {pos + 1..<pos + 1 + m})"
        using Suc.prems by simp
      from Suc.IH [OF this] obtain y
        where "selectBadPlayers rs n k (acc @ [?f pos]) (pos + 1) = Some y"
        by blast
      then show ?thesis
        using True new by (subst selectBadPlayers.simps) (simp add: Let_def)
    qed
  qed
qed

lemma assignBadRoles_ok:
  "\<forall>i \<in> set chosen. i < length ps \<Longrightarrow>
     \<exists>ps'. assignBadRoles ps chosen = Inr ps' \<and> length ps' = length ps
       \<and> (\<forall>j < length ps. ps' ! j = (if j \<in> set chosen then (ps ! j)\<lparr>role := Bad\<rparr> else ps ! j))"
proof (induction chosen arbitrary: ps)
  case Nil
  then show ?case by simp
next
  case (Cons i chosen)
  let ?ps1 = "ps[i := (ps ! i)\<lparr>role := Bad\<rparr>]"
  have i: "i < length ps"
    using Cons.prems by simp
  have "\<forall>j \<in> set chosen. j < length ?ps1"
    using Cons.prems by simp
  from Cons.IH [OF this] obtain ps' where ps': "assignBadRoles ?ps1 chosen = Inr ps'"
      "length ps' = length ?ps1"
      "\<forall>j < length ?ps1. ps' ! j = (if j \<in> set chosen then (?ps1 ! j)\<lparr>role := Bad\<rparr> else ?ps1 ! j)"
    by blast
  have "\<forall>j < length ps. ps' ! j = (if j \<in> set (i # chosen) then (ps ! j)\<lparr>role := Bad\<rparr> else ps ! j)"
    using ps'(3) i by (auto simp: nth_list_update)
  then show ?case
    using ps'(1,2) i by simp
qed

lemma setPartners_ok:
  assumes "badSpec chosen (length ps)"
  shows "\<exists>ps'. setPartners know chosen ps = Inr ps' \<and> length ps' = length ps
       \<and> (\<forall>j < length ps. ps' ! j =
             (if know \<and> length chosen = 2 \<and> j = chosen ! 0
                then (ps ! j)\<lparr>partnerId := Some (chosen ! 1)\<rparr>
              else if know \<and> length chosen = 2 \<and> j = chosen ! 1
                then (ps ! j)\<lparr>partnerId := Some (chosen ! 0)\<rparr>
              else ps ! j))"
proof (cases "know \<and> length chosen = 2")
  case False
  then show ?thesis
    by (auto simp: setPartners_def)
next
  case True
  then have mem: "chosen ! 0 \<in> set chosen" "chosen ! 1 \<in> set chosen"
    by simp_all
  then have lt: "chosen ! 0 < length ps" "chosen ! 1 < length ps"
    using assms by (auto simp: badSpec_def)
  have ne: "chosen ! 0 \<noteq> chosen ! 1"
    using assms True by (auto simp: badSpec_def distinct_conv_nth)
  show ?thesis
    using True lt ne by (auto simp: setPartners_def Let_def nth_list_update)
qed

lemma generatePlayerRoles_result:
  assumes fresh: "rm_players rm = []"
    and n: "3 \<le> length playersData" "length playersData \<le> 8"
    and sel: "selectBadPlayers rs (length playersData) (fst (roleDistribution (length playersData))) [] pos
                = Some (chosen, pos1)"
  shows "\<exists>shuffled pos2.
           generatePlayerRoles rm playersData rs pos
             = Some (Inr (rm\<lparr>rm_players := shuffled,
                             badPlayersKnowEachOther := Some (snd (roleDistribution (length playersData)))\<rparr>,
                          pos2))
           \<and> mset shuffled
               = mset (map (assignedPlayer playersData chosen (snd (roleDistribution (length playersData))))
                           [0..<length playersData])
           \<and> badSpec chosen (length playersData)
           \<and> length chosen = fst (roleDistribution (length playersData))"
proof -
  let ?n = "length playersData"
  let ?know = "snd (roleDistribution ?n)"
  let ?created = "map (\<lambda>i. newPlayer i (playersData ! i)) [0..<?n]"
  have spec: "badSpec chosen ?n" and len: "length chosen = fst (roleDistribution ?n)"
    using selectBadPlayers_result [OF sel] n by (auto simp: badSpec_def)
  have "\<forall>i \<in> set chosen. i < length ?created"
    using spec by (simp add: badSpec_def)
  from assignBadRoles_ok [OF this] obtain withRoles
    where wr: "assignBadRoles ?created chosen = Inr withRoles" "length withRoles = ?n"
      "\<forall>j < ?n. withRoles ! j = (if j \<in> set chosen then (?created ! j)\<lparr>role := Bad\<rparr> else ?created ! j)"
    by auto
  have "badSpec chosen (length withRoles)"
    using spec wr(2) by simp
  from setPartners_ok [OF this, of ?know] obtain linked
    where li: "setPartners ?know chosen withRoles = Inr linked" "length linked = ?n"
      "\<forall>j < ?n. linked ! j =
             (if ?know \<and> length chosen = 2 \<and> j = chosen ! 0
                then (withRoles ! j)\<lparr>partnerId := Some (chosen ! 1)\<rparr>
              else if ?know \<and> length chosen = 2 \<and> j = chosen ! 1
                then (withRoles ! j)\<lparr>partnerId := Some (chosen ! 0)\<rparr>
              else withRoles ! j)"
    using wr(2) by auto
  have eq: "linked = map (assignedPlayer playersData chosen ?know) [0..<?n]"
  proof (rule nth_equalityI)
    show "length linked = length (map (assignedPlayer playersData chosen ?know) [0..<?n])"
      using li(2) by simp
  next
    fix j
    assume "j < length linked"
    then have j: "j < ?n"
      using li(2) by simp
    show "linked ! j = map (assignedPlayer playersData chosen ?know) [0..<?n] ! j"
      using j li(3) wr(3) by (simp add: assignedPlayer_def newPlayer_def)
  qed
  obtain shuffled pos2 where sh: "shuffleArray linked rs pos1 = (shuffled, pos2)"
    by (cases "shuffleArray linked rs pos1")
  have ms: "mset shuffled = mset linked"
    using shuffleLoop_mset' [of linked rs pos1] sh by (simp add: shuffleArray_def)
  have "generatePlayerRoles rm playersData rs pos
          = Some (Inr (rm\<lparr>rm_players := shuffled, badPlayersKnowEachOther := Some ?know\<rparr>, pos2))"
    using n fresh sel wr(1) li(1) sh by (simp add: generatePlayerRoles_def Let_def)
  then show ?thesis
    using ms eq spec len by blast
qed

lemma assignedPlayer_fields [simp]:
  "index (assignedPlayer playersData chosen know i) = i"
  "role (assignedPlayer playersData chosen know i) = (if i \<in> set chosen then Bad else Good)"
  "partnerId (assignedPlayer playersData chosen know i)
     = (if know \<and> length chosen = 2 \<and> i = chosen ! 0 then Some (chosen ! 1)
        else if know \<and> length chosen = 2 \<and> i = chosen ! 1 then Some (chosen ! 0)
        else None)"
  by (simp_all add: assignedPlayer_def newPlayer_def)

lemma find_unique:
  assumes "x \<in> set xs" and "P x" and "\<And>y. y \<in> set xs \<Longrightarrow> P y \<Longrightarrow> y = x"
  shows "find P xs = Some x"
proof -
  have "find P xs \<noteq> None"
    using assms(1,2) unfolding find_None_iff by blast
  then obtain y where y: "find P xs = Some y"
    by blast
  then obtain i where "i < length xs" "P (xs ! i)" "y = xs ! i"
    unfolding find_Some_iff by blast
  then have "y \<in> set xs \<and> P y"
    by simp
  then show ?thesis
    using y assms(3) by blast
qed

lemma filter_length_mset: "mset xs = mset ys \<Longrightarrow> length (filter P xs) = length (filter P ys)"
proof -
  assume "mset xs = mset ys"
  then have "mset (filter P xs) = mset (filter P ys)"
    by simp
  then show ?thesis
    by (rule mset_eq_length)
qed

lemma count_chosen:
  assumes "badSpec chosen n"
  shows "length (filter (\<lambda>i. i \<in> set chosen) [0..<n]) = length chosen"
proof -
  have "length (filter (\<lambda>i. i \<in> set chosen) [0..<n]) = card ({i. i \<in> set chosen} \<inter> set [0..<n])"
    by (rule distinct_length_filter) simp
  also have "{i. i \<in> set chosen} \<inter> set [0..<n] = set chosen"
    using assms by (auto simp: badSpec_def)
  also have "card (set chosen) = length chosen"
    using assms by (simp add: badSpec_def distinct_card)
  finally show ?thesis .
qed

lemma shuffled_roles:
  assumes ms: "mset shuffled = mset (map (assignedPlayer playersData chosen know) [0..<n])"
    and spec: "badSpec chosen n"
  shows "length shuffled = n"
    and "length (getBadPlayers shuffled) = length chosen"
    and "length (getGoodPlayers shuffled) = n - length chosen"
proof -
  let ?L = "map (assignedPlayer playersData chosen know) [0..<n]"
  show len: "length shuffled = n"
    using mset_eq_length [OF ms] by simp
  have "length (filter (\<lambda>p. role p = Bad) ?L) = length (filter (\<lambda>i. i \<in> set chosen) [0..<n])"
    by (simp add: filter_map comp_def)
  then show b: "length (getBadPlayers shuffled) = length chosen"
    using filter_length_mset [OF ms, of "\<lambda>p. role p = Bad"] count_chosen [OF spec]
    by (simp add: getBadPlayers_def)
  have "length (filter (\<lambda>p. role p = Bad) shuffled) + length (filter (\<lambda>p. \<not> role p = Bad) shuffled)
          = length shuffled"
    by (rule sum_length_filter_compl)
  moreover have "(\<lambda>p::player. \<not> role p = Bad) = (\<lambda>p. role p = Good)"
    by (rule ext) (metis role.exhaust role.distinct(1))
  ultimately show "length (getGoodPlayers shuffled) = n - length chosen"
    using b len by (simp add: getBadPlayers_def getGoodPlayers_def)
qed

lemma shuffled_no_partners:
  assumes ms: "mset shuffled = mset (map (assignedPlayer playersData chosen know) [0..<n])"
    and no: "\<not> (know \<and> length chosen = 2)"
  shows "\<forall>p \<in> set shuffled. partnerId p = None"
proof -
  have "set shuffled = set (map (assignedPlayer playersData chosen know) [0..<n])"
    using ms by (rule mset_eq_setD)
  then show ?thesis
    using no by auto
qed

lemma shuffled_partners:
  assumes ms: "mset shuffled = mset (map (assignedPlayer playersData chosen know) [0..<n])"
    and spec: "badSpec chosen n"
    and two: "know" "length chosen = 2"
  shows "\<exists>a b. a \<noteq> b \<and> set (getBadPlayers shuffled) = {a, b}
           \<and> set (getBadPlayerPartners shuffled) = {a, b}
           \<and> partnerId a = Some (index b) \<and> partnerId b = Some (index a)
           \<and> partnerOf shuffled a = Some b \<and> partnerOf shuffled b = Some a
           \<and> (\<forall>p \<in> set shuffled. partnerId p \<noteq> None \<longrightarrow> p = a \<or> p = b)"
proof -
  let ?A = "assignedPlayer playersData chosen know"
  let ?a = "?A (chosen ! 0)" and ?b = "?A (chosen ! 1)"
  have st: "set shuffled = ?A ` {0..<n}"
    using mset_eq_setD [OF ms] by simp
  have ch: "chosen = [chosen ! 0, chosen ! 1]"
    using two(2) by (cases chosen; cases "tl chosen") auto
  then have sc: "set chosen = {chosen ! 0, chosen ! 1}"
    by (metis empty_set list.simps(15))
  have lt: "chosen ! 0 < n" "chosen ! 1 < n"
    using spec sc by (auto simp: badSpec_def)
  have ne: "chosen ! 0 \<noteq> chosen ! 1"
    using spec two(2) by (auto simp: badSpec_def distinct_conv_nth)
  have ab: "?a \<noteq> ?b"
    using ne by (metis assignedPlayer_fields(1))
  have mem: "?a \<in> set shuffled" "?b \<in> set shuffled"
    using st lt by auto
  have uniq: "\<And>q i. q \<in> set shuffled \<Longrightarrow> index q = i \<Longrightarrow> q = ?A i"
    using st by auto
  have bad: "set (getBadPlayers shuffled) = {?a, ?b}"
    using st sc lt by (auto simp: getBadPlayers_def split: if_splits)
  have par: "set (getBadPlayerPartners shuffled) = {?a, ?b}"
    using st sc lt two ne by (auto simp: getBadPlayerPartners_def split: if_splits)
  have pa: "partnerId ?a = Some (index ?b)" and pb: "partnerId ?b = Some (index ?a)"
    using two ne by simp_all
  have fa: "partnerOf shuffled ?a = Some ?b"
  proof -
    have "find (\<lambda>q. index q = chosen ! 1) shuffled = Some ?b"
    proof (rule find_unique)
      show "?b \<in> set shuffled" by (rule mem(2))
      show "index ?b = chosen ! 1" by simp
    next
      fix y
      assume "y \<in> set shuffled" and "index y = chosen ! 1"
      then show "y = ?b" by (rule uniq)
    qed
    then show ?thesis
      using pa by (simp add: partnerOf_def)
  qed
  have fb: "partnerOf shuffled ?b = Some ?a"
  proof -
    have "find (\<lambda>q. index q = chosen ! 0) shuffled = Some ?a"
    proof (rule find_unique)
      show "?a \<in> set shuffled" by (rule mem(1))
      show "index ?a = chosen ! 0" by simp
    next
      fix y
      assume "y \<in> set shuffled" and "index y = chosen ! 0"
      then show "y = ?a" by (rule uniq)
    qed
    then show ?thesis
      using pb by (simp add: partnerOf_def)
  qed
  have only: "\<forall>p \<in> set shuffled. partnerId p \<noteq> None \<longrightarrow> p = ?a \<or> p = ?b"
  proof (intro ballI impI)
    fix p
    assume "p \<in> set shuffled" and some: "partnerId p \<noteq> None"
    then obtain i where p: "p = ?A i"
      using st by auto
    have "i = chosen ! 0 \<or> i = chosen ! 1"
      using some unfolding p by (simp split: if_splits)
    then show "p = ?a \<or> p = ?b"
      using p by blast
  qed
  show ?thesis
    using ab bad par pa pb fa fb only by blast
qed

lemma roleDistribution_cases:
  "3 \<le> n \<Longrightarrow> n \<le> 8 \<Longrightarrow>
     (snd (roleDistribution n) \<and> fst (roleDistribution n) = 2) = (n = 6 \<or> n = 7)"
  by (auto simp: roleDistribution_def)

lemma badSpec_mono: "badSpec chosen n \<Longrightarrow> n \<le> m \<Longrightarrow> badSpec chosen m"
  by (auto simp: badSpec_def)

lemma generatePlayerRoles_no_error:
  assumes n: "3 \<le> length playersData" "length playersData \<le> 8"
  shows "generatePlayerRoles rm playersData rs pos \<noteq> Some (Inl x)"
proof (cases "selectBadPlayers rs (length playersData) (fst (roleDistribution (length playersData))) [] pos")
  case None
  then show ?thesis
    using n by (simp add: generatePlayerRoles_def Let_def)
next
  case (Some y)
  let ?n = "length playersData"
  let ?created = "rm_players rm @ map (\<lambda>i. newPlayer i (playersData ! i)) [0..<?n]"
  obtain chosen pos1 where y: "y = (chosen, pos1)"
    by (cases y)
  have "badSpec chosen ?n"
    using selectBadPlayers_result [OF Some] n y by (auto simp: badSpec_def)
  then have spec: "badSpec chosen (length ?created)"
    by (rule badSpec_mono) simp
  then have "\<forall>i \<in> set chosen. i < length ?created"
    by (simp add: badSpec_def)
  from assignBadRoles_ok [OF this] obtain withRoles
    where wr: "assignBadRoles ?created chosen = Inr withRoles" "length withRoles = length ?created"
    by blast
  have "badSpec chosen (length withRoles)"
    using spec wr(2) by simp
  from setPartners_ok [OF this] obtain linked
    where li: "setPartners (snd (roleDistribution ?n)) chosen withRoles = Inr linked"
    by blast
  show ?thesis
    using n Some y wr(1) li
    by (simp add: generatePlayerRoles_def Let_def split: prod.splits)
qed

text \<open>
  C6. For a roster of 3 to 8 players and a role manager without players, the number of
  Bad players is that of the table (3: 1, 4: 1, 5: 2, 6: 2, 7: 2, 8: 3). Whenever
  \<open>generatePlayerRoles\<close> returns, the players are as many as the roster, exactly that
  number of them are Bad and all the others Good; some player has a partner exactly when
  the roster has 6 or 7 players, and then the Bad players are two players \<open>a\<close> and \<open>b\<close>,
  each the partner of the other, and nobody else has a partner. It does return as soon
  as the draws from the starting position contain as many distinct indices as there are
  Bad players to choose.
\<close>

theorem role_assignment_distribution:
  assumes "rm_players rm = []" and "3 \<le> length playersData" and "length playersData \<le> 8"
  shows "fst (roleDistribution 3) = 1 \<and> fst (roleDistribution 4) = 1
     \<and> fst (roleDistribution 5) = 2 \<and> fst (roleDistribution 6) = 2
     \<and> fst (roleDistribution 7) = 2 \<and> fst (roleDistribution 8) = 3
     \<and> (generatePlayerRoles rm playersData rs pos = Some (Inr (rm', pos')) \<longrightarrow>
          length (rm_players rm') = length playersData
          \<and> length (getBadPlayers (rm_players rm')) = fst (roleDistribution (length playersData))
          \<and> length (getGoodPlayers (rm_players rm'))
              = length playersData - fst (roleDistribution (length playersData))
          \<and> ((\<exists>p \<in> set (rm_players rm'). partnerId p \<noteq> None)
               \<longleftrightarrow> length playersData = 6 \<or> length playersData = 7)
          \<and> (length playersData = 6 \<or> length playersData = 7 \<longrightarrow>
               (\<exists>a b. a \<noteq> b \<and> set (getBadPlayers (rm_players rm')) = {a, b}
                  \<and> set (getBadPlayerPartners (rm_players rm')) = {a, b}
                  \<and> partnerId a = Some (index b) \<and> partnerId b = Some (index a)
                  \<and> partnerOf (rm_players rm') a = Some b \<and> partnerOf (rm_players rm') b = Some a
                  \<and> (\<forall>p \<in> set (rm_players rm'). partnerId p \<noteq> None \<longrightarrow> p = a \<or> p = b))))
     \<and> (fst (roleDistribution (length playersData))
            \<le> card ((\<lambda>j. floor_random (rs j) (length playersData)) ` {pos..<pos + m}) \<longrightarrow>
          (\<exists>rm' pos'. generatePlayerRoles rm playersData rs pos = Some (Inr (rm', pos'))))"
proof -
  let ?n = "length playersData"
  let ?k = "fst (roleDistribution ?n)"
  let ?know = "snd (roleDistribution ?n)"
  have table: "fst (roleDistribution 3) = 1 \<and> fst (roleDistribution 4) = 1
     \<and> fst (roleDistribution 5) = 2 \<and> fst (roleDistribution 6) = 2
     \<and> fst (roleDistribution 7) = 2 \<and> fst (roleDistribution 8) = 3"
    by (simp add: roleDistribution_def)
  have result: "generatePlayerRoles rm playersData rs pos = Some (Inr (rm', pos')) \<longrightarrow>
          length (rm_players rm') = ?n
          \<and> length (getBadPlayers (rm_players rm')) = ?k
          \<and> length (getGoodPlayers (rm_players rm')) = ?n - ?k
          \<and> ((\<exists>p \<in> set (rm_players rm'). partnerId p \<noteq> None) \<longleftrightarrow> ?n = 6 \<or> ?n = 7)
          \<and> (?n = 6 \<or> ?n = 7 \<longrightarrow>
               (\<exists>a b. a \<noteq> b \<and> set (getBadPlayers (rm_players rm')) = {a, b}
                  \<and> set (getBadPlayerPartners (rm_players rm')) = {a, b}
                  \<and> partnerId a = Some (index b) \<and> partnerId b = Some (index a)
                  \<and> partnerOf (rm_players rm') a = Some b \<and> partnerOf (rm_players rm') b = Some a
                  \<and> (\<forall>p \<in> set (rm_players rm'). partnerId p \<noteq> None \<longrightarrow> p = a \<or> p = b)))"
  proof
    assume g: "generatePlayerRoles rm playersData rs pos = Some (Inr (rm', pos'))"
    then obtain y where "selectBadPlayers rs ?n ?k [] pos = Some y"
      using assms(2,3) by (cases "selectBadPlayers rs ?n ?k [] pos") (simp_all add: generatePlayerRoles_def Let_def)
    then obtain chosen pos1 where sel: "selectBadPlayers rs ?n ?k [] pos = Some (chosen, pos1)"
      by (cases y) simp
    from generatePlayerRoles_result [OF assms sel] g
    have ms: "mset (rm_players rm') = mset (map (assignedPlayer playersData chosen ?know) [0..<?n])"
      and spec: "badSpec chosen ?n" and len: "length chosen = ?k"
      by auto
    have two: "(?know \<and> length chosen = 2) = (?n = 6 \<or> ?n = 7)"
      using roleDistribution_cases [OF assms(2,3)] len by simp
    have links: "?n = 6 \<or> ?n = 7 \<longrightarrow>
               (\<exists>a b. a \<noteq> b \<and> set (getBadPlayers (rm_players rm')) = {a, b}
                  \<and> set (getBadPlayerPartners (rm_players rm')) = {a, b}
                  \<and> partnerId a = Some (index b) \<and> partnerId b = Some (index a)
                  \<and> partnerOf (rm_players rm') a = Some b \<and> partnerOf (rm_players rm') b = Some a
                  \<and> (\<forall>p \<in> set (rm_players rm'). partnerId p \<noteq> None \<longrightarrow> p = a \<or> p = b))"
      using shuffled_partners [OF ms spec] two by blast
    have exist: "(\<exists>p \<in> set (rm_players rm'). partnerId p \<noteq> None) \<longleftrightarrow> ?n = 6 \<or> ?n = 7"
    proof
      assume "\<exists>p \<in> set (rm_players rm'). partnerId p \<noteq> None"
      then show "?n = 6 \<or> ?n = 7"
        using shuffled_no_partners [OF ms] two by auto
    next
      assume "?n = 6 \<or> ?n = 7"
      then obtain a b where ab: "set (getBadPlayers (rm_players rm')) = {a, b}"
          "partnerId a = Some (index b)"
        using links by blast
      have "a \<in> set (getBadPlayers (rm_players rm'))"
        using ab(1) by simp
      then have "a \<in> set (rm_players rm')"
        by (simp add: getBadPlayers_def)
      then show "\<exists>p \<in> set (rm_players rm'). partnerId p \<noteq> None"
        using ab(2) by auto
    qed
    show "length (rm_players rm') = ?n
          \<and> length (getBadPlayers (rm_players rm')) = ?k
          \<and> length (getGoodPlayers (rm_players rm')) = ?n - ?k
          \<and> ((\<exists>p \<in> set (rm_players rm'). partnerId p \<noteq> None) \<longleftrightarrow> ?n = 6 \<or> ?n = 7)
          \<and> (?n = 6 \<or> ?n = 7 \<longrightarrow>
               (\<exists>a b. a \<noteq> b \<and> set (getBadPlayers (rm_players rm')) = {a, b}
                  \<and> set (getBadPlayerPartners (rm_players rm')) = {a, b}
                  \<and> partnerId a = Some (index b) \<and> partnerId b = Some (index a)
                  \<and> partnerOf (rm_players rm') a = Some b \<and> partnerOf (rm_players rm') b = Some a
                  \<and> (\<forall>p \<in> set (rm_players rm'). partnerId p \<noteq> None \<longrightarrow> p = a \<or> p = b)))"
      using shuffled_roles [OF ms spec] len links exist by simp
  qed
  have total: "?k \<le> card ((\<lambda>j. floor_random (rs j) ?n) ` {pos..<pos + m}) \<longrightarrow>
          (\<exists>rm' pos'. generatePlayerRoles rm playersData rs pos = Some (Inr (rm', pos')))"
  proof
    assume "?k \<le> card ((\<lambda>j. floor_random (rs j) ?n) ` {pos..<pos + m})"
    then have "?k \<le> card (set [] \<union> (\<lambda>j. floor_random (rs j) ?n) ` {pos..<pos + m})"
      by simp
    from selectBadPlayers_terminates [OF this] obtain y
      where "selectBadPlayers rs ?n ?k [] pos = Some y"
      by blast
    then obtain chosen pos1 where "selectBadPlayers rs ?n ?k [] pos = Some (chosen, pos1)"
      by (cases y) simp
    from generatePlayerRoles_result [OF assms this]
    show "\<exists>rm' pos'. generatePlayerRoles rm playersData rs pos = Some (Inr (rm', pos'))"
      by blast
  qed
  show ?thesis
    using table result total by blast
qed

theorem role_assignment_distribution_witness:
  "rm_players newRoleManager = [] \<and> length (exampleData 6) = 6
   \<and> generatePlayerRoles newRoleManager (exampleData 6) risingDraws 0
       = Some (Inr (fst (projr (the (generatePlayerRoles newRoleManager (exampleData 6) risingDraws 0))),
                    snd (projr (the (generatePlayerRoles newRoleManager (exampleData 6) risingDraws 0)))))
   \<and> map (\<lambda>p. (index p, role p, partnerId p))
         (rm_players (fst (projr (the (generatePlayerRoles newRoleManager (exampleData 6) risingDraws 0)))))
       = [(2, Good, None), (0, Bad, Some 1), (3, Good, None), (4, Good, None), (5, Good, None),
          (1, Bad, Some 0)]
   \<and> length (getBadPlayers
         (rm_players (fst (projr (the (generatePlayerRoles newRoleManager (exampleData 6) risingDraws 0))))))
       = 2
   \<and> length (getGoodPlayers
         (rm_players (fst (projr (the (generatePlayerRoles newRoleManager (exampleData 6) risingDraws 0))))))
       = 4"
proof -
  let ?R = "generatePlayerRoles newRoleManager (exampleData 6) risingDraws 0"
  have fresh: "rm_players newRoleManager = []"
    by (simp add: newRoleManager_def)
  have six: "length (exampleData 6) = 6"
    by (simp add: exampleData_def)
  have lo: "3 \<le> length (exampleData 6)" and hi: "length (exampleData 6) \<le> 8"
    using six by simp_all
  have ret: "?R = Some (Inr (fst (projr (the ?R)), snd (projr (the ?R))))"
    by code_simp
  have roles: "map (\<lambda>p. (index p, role p, partnerId p)) (rm_players (fst (projr (the ?R))))
       = [(2, Good, None), (0, Bad, Some 1), (3, Good, None), (4, Good, None), (5, Good, None),
          (1, Bad, Some 0)]"
    by code_simp
  have two: "fst (roleDistribution 6) = 2"
    by (simp add: roleDistribution_def)
  show ?thesis
    using fresh six ret roles two
      role_assignment_distribution
        [OF fresh lo hi, of risingDraws 0 "fst (projr (the ?R))" "snd (projr (the ?R))" 3]
    by simp
qed

text \<open>
  C7. With fewer than 3 or more than 8 entries \<open>generatePlayerRoles\<close> throws the error for
  the player count before it touches the manager, and \<open>startRoleAssignment\<close> ends with
  that error and an empty player list: no player has been given a role. With 3 to 8
  entries neither of them ends with an error of any kind.
\<close>

theorem invalid_player_count:
  "(length playersData < 3 \<or> 8 < length playersData \<longrightarrow>
      generatePlayerRoles rm playersData rs pos = Some (Inl (InvalidPlayerCount, rm))
      \<and> startRoleAssignment rm playersData rs pos
          = Some (Inl (InvalidPlayerCount,
                       rm\<lparr>rm_players := [], rm_currentPlayerIndex := 0, isAssigningRoles := True\<rparr>)))
   \<and> (3 \<le> length playersData \<and> length playersData \<le> 8 \<longrightarrow>
        generatePlayerRoles rm playersData rs pos \<noteq> Some (Inl failure)
        \<and> startRoleAssignment rm playersData rs pos \<noteq> Some (Inl failure))"
proof -
  have invalid: "length playersData < 3 \<or> 8 < length playersData \<longrightarrow>
      generatePlayerRoles rm playersData rs pos = Some (Inl (InvalidPlayerCount, rm))
      \<and> startRoleAssignment rm playersData rs pos
          = Some (Inl (InvalidPlayerCount,
                       rm\<lparr>rm_players := [], rm_currentPlayerIndex := 0, isAssigningRoles := True\<rparr>))"
    by (auto simp: generatePlayerRoles_def startRoleAssignment_def)
  have valid: "3 \<le> length playersData \<and> length playersData \<le> 8 \<longrightarrow>
        generatePlayerRoles rm playersData rs pos \<noteq> Some (Inl failure)
        \<and> startRoleAssignment rm playersData rs pos \<noteq> Some (Inl failure)"
    using generatePlayerRoles_no_error [of playersData rm rs pos failure]
      generatePlayerRoles_no_error
        [of playersData "rm\<lparr>rm_players := [], rm_currentPlayerIndex := 0, isAssigningRoles := True\<rparr>"
            rs pos failure]
    by (simp add: startRoleAssignment_def)
  show ?thesis
    using invalid valid by blast
qed

theorem invalid_player_count_witness:
  "length (exampleData 2) < 3
   \<and> startRoleAssignment newRoleManager (exampleData 2) risingDraws 0
       = Some (Inl (InvalidPlayerCount,
                    newRoleManager\<lparr>rm_players := [], rm_currentPlayerIndex := 0,
                                   isAssigningRoles := True\<rparr>))
   \<and> 3 \<le> length (exampleData 6) \<and> length (exampleData 6) \<le> 8
   \<and> startRoleAssignment newRoleManager (exampleData 6) risingDraws 0
       \<noteq> Some (Inl (TypeError, newRoleManager))"
proof -
  have two: "length (exampleData 2) = 2" and six: "length (exampleData 6) = 6"
    by (simp_all add: exampleData_def)
  show ?thesis
    using two six
      invalid_player_count [of "exampleData 2" newRoleManager risingDraws 0]
      invalid_player_count [of "exampleData 6" newRoleManager risingDraws 0 "(TypeError, newRoleManager)"]
    by simp
qed

section \<open>The suspicion vote\<close>

lemma firsts_snoc:
  "firsts (xs @ [x]) = (if x \<in> set (firsts xs) then firsts xs else firsts xs @ [x])"
  by (simp add: firsts_def)

lemma firsts_set: "set (firsts xs) = set xs"
  by (induction xs rule: rev_induct) (auto simp: firsts_snoc firsts_def)

lemma firsts_distinct: "distinct (firsts xs)"
  by (induction xs rule: rev_induct) (auto simp: firsts_snoc firsts_def)

lemma find_snoc:
  "find P (xs @ [x]) = (case find P xs of None \<Rightarrow> (if P x then Some x else None) | Some y \<Rightarrow> Some y)"
  by (induction xs) simp_all

lemma find_firsts: "find P (firsts xs) = find P xs"
proof (induction xs rule: rev_induct)
  case Nil
  show ?case by (simp add: firsts_def)
next
  case (snoc x xs)
  show ?case
  proof (cases "x \<in> set xs")
    case True
    have "find P xs = None \<Longrightarrow> \<not> P x"
      using True unfolding find_None_iff by blast
    then show ?thesis
      using True snoc.IH by (cases "find P xs") (simp_all add: firsts_snoc firsts_set find_snoc)
  next
    case False
    then show ?thesis
      using snoc.IH by (simp add: firsts_snoc firsts_set find_snoc)
  qed
qed

lemma mapSet_present:
  "distinct ks \<Longrightarrow> x \<in> set ks \<Longrightarrow>
     mapSet (map (\<lambda>s. (s, f s)) ks) x v = map (\<lambda>s. (s, if s = x then v else f s)) ks"
  by (induction ks) auto

lemma mapSet_absent:
  "x \<notin> set ks \<Longrightarrow> mapSet (map (\<lambda>s. (s, f s)) ks) x v = map (\<lambda>s. (s, f s)) ks @ [(x, v)]"
  by (induction ks) auto

lemma map_of_keyed:
  "map_of (map (\<lambda>s. (s, f s)) ks) x = (if x \<in> set ks then Some (f x) else None)"
  by (induction ks) auto

lemma bruteForceCount_snoc:
  "bruteForceCount (vs @ [v]) s = bruteForceCount vs s + (if snd v = s then 1 else 0)"
  by (simp add: bruteForceCount_def)

lemma bruteForceCount_zero: "s \<notin> snd ` set vs \<Longrightarrow> bruteForceCount vs s = 0"
  by (auto simp: bruteForceCount_def filter_empty_conv)

lemma bruteForceCount_pos: "s \<in> snd ` set vs \<Longrightarrow> 0 < bruteForceCount vs s"
  by (auto simp: bruteForceCount_def filter_empty_conv)

lemma suspicionCounts_eq:
  "suspicionCounts vs = map (\<lambda>s. (s, bruteForceCount vs s)) (firsts (map snd vs))"
proof (induction vs rule: rev_induct)
  case Nil
  show ?case by (simp add: suspicionCounts_def firsts_def)
next
  case (snoc v vs)
  let ?ks = "firsts (map snd vs)"
  let ?x = "snd v"
  have step: "suspicionCounts (vs @ [v]) = countSuspicion (suspicionCounts vs) v"
    by (simp add: suspicionCounts_def)
  show ?case
  proof (cases "?x \<in> set ?ks")
    case True
    have "countSuspicion (map (\<lambda>s. (s, bruteForceCount vs s)) ?ks) v
            = map (\<lambda>s. (s, if s = ?x then bruteForceCount vs ?x + 1 else bruteForceCount vs s)) ?ks"
      using True firsts_distinct [of "map snd vs"]
      by (simp add: countSuspicion_def Let_def map_of_keyed mapSet_present)
    also have "\<dots> = map (\<lambda>s. (s, bruteForceCount (vs @ [v]) s)) ?ks"
      by (simp add: bruteForceCount_snoc)
    finally show ?thesis
      using True step snoc.IH by (simp add: firsts_snoc)
  next
    case False
    then have zero: "bruteForceCount vs ?x = 0"
      using bruteForceCount_zero [of ?x vs] by (simp add: firsts_set)
    have "countSuspicion (map (\<lambda>s. (s, bruteForceCount vs s)) ?ks) v
            = map (\<lambda>s. (s, bruteForceCount vs s)) ?ks @ [(?x, 1)]"
      using False by (simp add: countSuspicion_def Let_def map_of_keyed mapSet_absent)
    also have "\<dots> = map (\<lambda>s. (s, bruteForceCount (vs @ [v]) s)) (?ks @ [?x])"
      using False zero by (auto simp: bruteForceCount_snoc)
    finally show ?thesis
      using False step snoc.IH by (simp add: firsts_snoc)
  qed
qed


lemma find_same: "(\<And>y. y \<in> set xs \<Longrightarrow> P y = Q y) \<Longrightarrow> find P xs = find Q xs"
  by (induction xs) simp_all

lemma mostSuspected_fold:
  assumes pos: "\<And>s. s \<in> set ks \<Longrightarrow> 0 < c s"
  shows "(ks = [] \<and> foldl moreSuspected (None, 0) (map (\<lambda>s. (s, c s)) ks) = (None, 0))
       \<or> (\<exists>s. find (\<lambda>s. \<forall>t \<in> set ks. c t \<le> c s) ks = Some s
              \<and> foldl moreSuspected (None, 0) (map (\<lambda>s. (s, c s)) ks) = (Some s, c s))"
  using pos
proof (induction ks rule: rev_induct)
  case Nil
  show ?case by simp
next
  case (snoc x ks)
  let ?P = "\<lambda>s. \<forall>t \<in> set ks. c t \<le> c s"
  let ?P' = "\<lambda>s. \<forall>t \<in> set (ks @ [x]). c t \<le> c s"
  let ?r = "foldl moreSuspected (None, 0) (map (\<lambda>s. (s, c s)) ks)"
  have step: "foldl moreSuspected (None, 0) (map (\<lambda>s. (s, c s)) (ks @ [x]))
                = moreSuspected ?r (x, c x)"
    by simp
  have cx: "0 < c x"
    using snoc.prems by simp
  have IH: "(ks = [] \<and> ?r = (None, 0)) \<or> (\<exists>s. find ?P ks = Some s \<and> ?r = (Some s, c s))"
    using snoc.IH snoc.prems by simp
  show ?case
  proof (cases "snd ?r < c x")
    case True
    have "\<And>y. y \<in> set ks \<Longrightarrow> \<not> ?P' y"
    proof -
      fix y
      assume y: "y \<in> set ks"
      from IH y obtain s where s: "find ?P ks = Some s" "?r = (Some s, c s)"
        by auto
      then obtain i where "i < length ks" "?P (ks ! i)" "s = ks ! i"
        unfolding find_Some_iff by blast
      then have "c y \<le> c s"
        using y by blast
      then have "c y < c x"
        using True s(2) by simp
      then show "\<not> ?P' y"
        by auto
    qed
    then have "find ?P' ks = None"
      unfolding find_None_iff by blast
    moreover have "?P' x"
    proof
      fix t
      assume "t \<in> set (ks @ [x])"
      then consider "t = x" | "t \<in> set ks" by auto
      then show "c t \<le> c x"
      proof cases
        case 1
        then show ?thesis by simp
      next
        case 2
        from IH 2 obtain s where s: "find ?P ks = Some s" "?r = (Some s, c s)"
          by auto
        then obtain i where "i < length ks" "?P (ks ! i)" "s = ks ! i"
          unfolding find_Some_iff by blast
        then have "c t \<le> c s"
          using 2 by blast
        then show ?thesis
          using True s(2) by simp
      qed
    qed
    ultimately have "find ?P' (ks @ [x]) = Some x"
      by (simp add: find_snoc)
    moreover have "moreSuspected ?r (x, c x) = (Some x, c x)"
      using True by (simp add: moreSuspected_def)
    ultimately show ?thesis
      using step by simp
  next
    case False
    then have "ks \<noteq> []"
      using IH cx by auto
    then obtain s where s: "find ?P ks = Some s" "?r = (Some s, c s)"
      using IH by auto
    then obtain i where i: "i < length ks" "?P (ks ! i)" "s = ks ! i"
      unfolding find_Some_iff by blast
    have le: "c x \<le> c s"
      using False s(2) by simp
    have "\<And>y. y \<in> set ks \<Longrightarrow> ?P' y = ?P y"
    proof -
      fix y
      assume y: "y \<in> set ks"
      have "s \<in> set ks"
        using i by simp
      show "?P' y = ?P y"
      proof
        assume "?P' y"
        then show "?P y" by simp
      next
        assume p: "?P y"
        then have "c s \<le> c y"
          using \<open>s \<in> set ks\<close> by blast
        then have "c x \<le> c y"
          using le by simp
        then show "?P' y"
          using p by simp
      qed
    qed
    then have "find ?P' ks = find ?P ks"
      by (rule find_same)
    then have "find ?P' (ks @ [x]) = Some s"
      using s(1) by (simp add: find_snoc)
    moreover have "moreSuspected ?r (x, c x) = (Some s, c s)"
      using False s(2) by (simp add: moreSuspected_def)
    ultimately show ?thesis
      using step by simp
  qed
qed

lemma mostSuspected_eq: "mostSuspected vs = bruteForceMostSuspected vs"
proof -
  let ?ks = "firsts (map snd vs)"
  let ?c = "bruteForceCount vs"
  let ?P = "\<lambda>s. \<forall>t \<in> set (map snd vs). ?c t \<le> ?c s"
  have pos: "\<And>s. s \<in> set ?ks \<Longrightarrow> 0 < ?c s"
    using bruteForceCount_pos [of _ vs] by (simp add: firsts_set)
  have same: "(\<lambda>s. \<forall>t \<in> set ?ks. ?c t \<le> ?c s) = ?P"
    by (simp add: firsts_set)
  have bf: "bruteForceMostSuspected vs = find ?P ?ks"
    by (simp add: bruteForceMostSuspected_def find_firsts)
  from mostSuspected_fold [of ?ks ?c, OF pos]
  have "(?ks = [] \<and> foldl moreSuspected (None, 0) (map (\<lambda>s. (s, ?c s)) ?ks) = (None, 0))
       \<or> (\<exists>s. find ?P ?ks = Some s
              \<and> foldl moreSuspected (None, 0) (map (\<lambda>s. (s, ?c s)) ?ks) = (Some s, ?c s))"
    unfolding same by blast
  then show ?thesis
  proof
    assume "?ks = [] \<and> foldl moreSuspected (None, 0) (map (\<lambda>s. (s, ?c s)) ?ks) = (None, 0)"
    then show ?thesis
      unfolding bf by (simp add: mostSuspected_def suspicionCounts_eq)
  next
    assume "\<exists>s. find ?P ?ks = Some s
              \<and> foldl moreSuspected (None, 0) (map (\<lambda>s. (s, ?c s)) ?ks) = (Some s, ?c s)"
    then show ?thesis
      unfolding bf by (auto simp: mostSuspected_def suspicionCounts_eq)
  qed
qed


lemma mapSet_set: "set (mapSet m k v) \<subseteq> insert (k, v) (set m)"
  by (induction m k v rule: mapSet.induct) (auto split: if_splits)

lemma mapSet_keys: "fst ` set (mapSet m k v) = insert k (fst ` set m)"
  by (induction m k v rule: mapSet.induct) (auto split: if_splits)

lemma mapSet_length:
  "length (mapSet m k v) = (if k \<in> fst ` set m then length m else length m + 1)"
  by (induction m k v rule: mapSet.induct) (force split: if_splits)+

lemma click_self_rejected:
  "int suspect = indexOf (fi_players fi) votingPlayer \<Longrightarrow>
     clickSuspectOption fi votingPlayer suspect = None"
  by (simp add: clickSuspectOption_def playerOptions_def)

lemma click_accepted:
  assumes "clickSuspectOption fi votingPlayer suspect = Some (Inr fi1)"
  shows "fi_players fi1 = fi_players fi"
    and "fi_votes fi1 = mapSet (fi_votes fi) (indexOf (fi_players fi) votingPlayer) suspect"
    and "indexOf (fi_players fi) votingPlayer \<noteq> int suspect"
    and "suspect < length (fi_players fi)"
  using assms
  by (auto simp: clickSuspectOption_def playerOptions_def recordVote_def Let_def
        split: if_splits option.splits)

lemma elemAt_nth: "i < length xs \<Longrightarrow> elemAt xs (int i) = Some (xs ! i)"
  by (simp add: elemAt_def)

lemma click_possible:
  assumes "votingPlayer \<in> set (fi_players fi)" and "suspect < length (fi_players fi)"
    and "int suspect \<noteq> indexOf (fi_players fi) votingPlayer"
    and "updateVotesDisplay fi = None"
  shows "\<exists>fi1. clickSuspectOption fi votingPlayer suspect = Some (Inr fi1)
               \<and> updateVotesDisplay fi1 = None"
proof -
  let ?k = "indexOf (fi_players fi) votingPlayer"
  let ?fi1 = "fi\<lparr>fi_votes := mapSet (fi_votes fi) ?k suspect\<rparr>"
  have opt: "suspect \<in> set (playerOptions (fi_players fi) votingPlayer)"
    using assms(2,3) by (simp add: playerOptions_def)
  have sus: "elemAt (fi_players fi) (int suspect) = Some (fi_players fi ! suspect)"
    using assms(2) by (rule elemAt_nth)
  have voter: "elemAt (fi_players fi) ?k = Some votingPlayer"
    using assms(1) by (rule elemAt_indexOf)
  have old: "\<forall>vote \<in> set (fi_votes fi).
               elemAt (fi_players fi) (fst vote) \<noteq> None
               \<and> elemAt (fi_players fi) (int (snd vote)) \<noteq> None"
    using assms(4) by (simp add: updateVotesDisplay_def split: if_splits)
  have "\<forall>vote \<in> set (fi_votes ?fi1).
               elemAt (fi_players ?fi1) (fst vote) \<noteq> None
               \<and> elemAt (fi_players ?fi1) (int (snd vote)) \<noteq> None"
  proof
    fix vote
    assume "vote \<in> set (fi_votes ?fi1)"
    then have "vote = (?k, suspect) \<or> vote \<in> set (fi_votes fi)"
      using mapSet_set [of "fi_votes fi" ?k suspect] by auto
    then show "elemAt (fi_players ?fi1) (fst vote) \<noteq> None
               \<and> elemAt (fi_players ?fi1) (int (snd vote)) \<noteq> None"
      using sus voter old by auto
  qed
  then have "updateVotesDisplay ?fi1 = None"
    by (simp add: updateVotesDisplay_def)
  then show ?thesis
    using opt sus by (simp add: clickSuspectOption_def recordVote_def Let_def)
qed

lemma castVotes_possible:
  "updateVotesDisplay fi = None \<Longrightarrow>
   \<forall>c \<in> set clicks. fst c \<in> set (fi_players fi) \<and> snd c < length (fi_players fi)
                        \<and> int (snd c) \<noteq> indexOf (fi_players fi) (fst c) \<Longrightarrow>
     \<exists>fi1. castVotes fi clicks = Some fi1"
proof (induction clicks arbitrary: fi)
  case Nil
  then show ?case by simp
next
  case (Cons c clicks)
  obtain vp suspect where c: "c = (vp, suspect)"
    by (cases c)
  have "vp \<in> set (fi_players fi)" "suspect < length (fi_players fi)"
      "int suspect \<noteq> indexOf (fi_players fi) vp"
    using Cons.prems(2) c by auto
  then obtain fi2 where fi2: "clickSuspectOption fi vp suspect = Some (Inr fi2)"
      "updateVotesDisplay fi2 = None"
    using click_possible [of vp fi suspect] Cons.prems(1) by blast
  have same: "fi_players fi2 = fi_players fi"
    using fi2(1) by (auto simp: clickSuspectOption_def recordVote_def Let_def
                        split: if_splits option.splits)
  have "\<forall>c \<in> set clicks. fst c \<in> set (fi_players fi2) \<and> snd c < length (fi_players fi2)
                        \<and> int (snd c) \<noteq> indexOf (fi_players fi2) (fst c)"
    using Cons.prems(2) same by simp
  then obtain fi1 where "castVotes fi2 clicks = Some fi1"
    using Cons.IH [OF fi2(2)] by blast
  then show ?case
    using c fi2(1) by simp
qed

lemma castVotes_players: "castVotes fi clicks = Some fi1 \<Longrightarrow> fi_players fi1 = fi_players fi"
proof (induction clicks arbitrary: fi)
  case Nil
  then show ?case by simp
next
  case (Cons c clicks)
  obtain vp suspect where c: "c = (vp, suspect)"
    by (cases c)
  from Cons.prems c obtain fi2 where fi2: "clickSuspectOption fi vp suspect = Some (Inr fi2)"
      "castVotes fi2 clicks = Some fi1"
    by (auto split: option.splits sum.splits)
  show ?case
    using Cons.IH [OF fi2(2)] click_accepted(1) [OF fi2(1)] by simp
qed

lemma castVotes_suspects:
  "castVotes fi clicks = Some fi1 \<Longrightarrow>
   \<forall>vote \<in> set (fi_votes fi). snd vote < length (fi_players fi) \<Longrightarrow>
     \<forall>vote \<in> set (fi_votes fi1). snd vote < length (fi_players fi1)"
proof (induction clicks arbitrary: fi)
  case Nil
  then show ?case by simp
next
  case (Cons c clicks)
  obtain vp suspect where c: "c = (vp, suspect)"
    by (cases c)
  from Cons.prems(1) c obtain fi2 where fi2: "clickSuspectOption fi vp suspect = Some (Inr fi2)"
      "castVotes fi2 clicks = Some fi1"
    by (auto split: option.splits sum.splits)
  have "\<forall>vote \<in> set (fi_votes fi2). snd vote < length (fi_players fi2)"
    using click_accepted(1,2,4) [OF fi2(1)] Cons.prems(2)
      mapSet_set [of "fi_votes fi" "indexOf (fi_players fi) vp" suspect]
    by auto
  then show ?case
    using Cons.IH [OF fi2(2)] by blast
qed

lemma bruteForceMostSuspected_member:
  "bruteForceMostSuspected vs = Some m \<Longrightarrow> m \<in> snd ` set vs"
proof -
  assume "bruteForceMostSuspected vs = Some m"
  then obtain i where "i < length (map snd vs)" "m = map snd vs ! i"
    unfolding bruteForceMostSuspected_def find_Some_iff by blast
  then have "m \<in> set (map snd vs)"
    using nth_mem by blast
  then show ?thesis
    by simp
qed

lemma analyzeVotes_result:
  assumes "\<forall>vote \<in> set (fi_votes fi). snd vote < length (fi_players fi)"
  shows "analyzeVotes fi
           = Inr (fi_votes fi, suspicionCounts (fi_votes fi), bruteForceMostSuspected (fi_votes fi))"
proof (cases "bruteForceMostSuspected (fi_votes fi)")
  case None
  then show ?thesis
    by (simp add: analyzeVotes_def Let_def mostSuspected_eq)
next
  case (Some m)
  then have "m \<in> snd ` set (fi_votes fi)"
    by (rule bruteForceMostSuspected_member)
  then have "m < length (fi_players fi)"
    using assms by auto
  then have "elemAt (fi_players fi) (int m) = Some (fi_players fi ! m)"
    by (rule elemAt_nth)
  then show ?thesis
    using Some by (simp add: analyzeVotes_def Let_def mostSuspected_eq)
qed

lemma castVotes_no_self_vote:
  "castVotes fi clicks = Some fi1 \<Longrightarrow> \<forall>vote \<in> set (fi_votes fi). fst vote \<noteq> int (snd vote) \<Longrightarrow>
     \<forall>vote \<in> set (fi_votes fi1). fst vote \<noteq> int (snd vote)"
proof (induction clicks arbitrary: fi)
  case Nil
  then show ?case by simp
next
  case (Cons c clicks)
  obtain vp suspect where c: "c = (vp, suspect)"
    by (cases c)
  from Cons.prems(1) c obtain fi2 where fi2: "clickSuspectOption fi vp suspect = Some (Inr fi2)"
      "castVotes fi2 clicks = Some fi1"
    by (auto split: option.splits sum.splits)
  have "\<forall>vote \<in> set (fi_votes fi2). fst vote \<noteq> int (snd vote)"
    using click_accepted(2,3) [OF fi2(1)] Cons.prems(2)
      mapSet_set [of "fi_votes fi" "indexOf (fi_players fi) vp" suspect]
    by auto
  then show ?case
    using Cons.IH [OF fi2(2)] by blast
qed

lemma castVotes_count:
  "castVotes fi clicks = Some fi1 \<Longrightarrow>
   distinct (map (\<lambda>c. indexOf (fi_players fi) (fst c)) clicks) \<Longrightarrow>
   \<forall>c \<in> set clicks. indexOf (fi_players fi) (fst c) \<notin> fst ` set (fi_votes fi) \<Longrightarrow>
     length (fi_votes fi1) = length (fi_votes fi) + length clicks"
proof (induction clicks arbitrary: fi)
  case Nil
  then show ?case by simp
next
  case (Cons c clicks)
  obtain vp suspect where c: "c = (vp, suspect)"
    by (cases c)
  from Cons.prems(1) c obtain fi2 where fi2: "clickSuspectOption fi vp suspect = Some (Inr fi2)"
      "castVotes fi2 clicks = Some fi1"
    by (auto split: option.splits sum.splits)
  note acc = click_accepted [OF fi2(1)]
  have new: "indexOf (fi_players fi) vp \<notin> fst ` set (fi_votes fi)"
    using Cons.prems(3) c by simp
  have len: "length (fi_votes fi2) = length (fi_votes fi) + 1"
    using new unfolding acc(2) by (simp add: mapSet_length)
  have d: "distinct (map (\<lambda>c. indexOf (fi_players fi2) (fst c)) clicks)"
    using Cons.prems(2) acc(1) by simp
  have "\<forall>c \<in> set clicks. indexOf (fi_players fi2) (fst c) \<notin> fst ` set (fi_votes fi2)"
  proof
    fix d
    assume d: "d \<in> set clicks"
    have mem: "indexOf (fi_players fi) (fst d) \<in> (\<lambda>c. indexOf (fi_players fi) (fst c)) ` set clicks"
      using d by (rule imageI)
    have "indexOf (fi_players fi) vp \<notin> (\<lambda>c. indexOf (fi_players fi) (fst c)) ` set clicks"
      using Cons.prems(2) c by simp
    then have "indexOf (fi_players fi) (fst d) \<noteq> indexOf (fi_players fi) vp"
      using mem by metis
    moreover have "indexOf (fi_players fi) (fst d) \<notin> fst ` set (fi_votes fi)"
      using Cons.prems(3) d by simp
    ultimately show "indexOf (fi_players fi2) (fst d) \<notin> fst ` set (fi_votes fi2)"
      unfolding acc(1) acc(2) mapSet_keys by simp
  qed
  from Cons.IH [OF fi2(2) d this] len show ?case
    by simp
qed

text \<open>
  C9. The voting interface offers no option for the voting player's own position, so a
  click that would name the voter as the suspect casts no vote, and every vote recorded
  through the interface has a suspect other than its voter; a click by one of the
  players on the option of any other position does cast a vote. When the votes start
  empty and N players at N different positions each click once, N votes are recorded.
  The most suspected player computed by \<open>analyzeVotes\<close> is the one a brute-force count
  gives: the suspect named by the largest number of votes, the first such suspect met in
  a pass over the votes in voter order; and the count kept for each suspect is the
  number of votes that name it. On the votes cast through the interface \<open>analyzeVotes\<close>
  does not throw, and stores the votes, these counts and this most suspected player;
  and when the votes start empty, any clicks of players of the game, each on the option
  of a position other than the player's own, are all recorded and analysed in this way.
\<close>

theorem suspicion_vote_tally:
  "(int suspect = indexOf (fi_players fi) votingPlayer \<longrightarrow>
      clickSuspectOption fi votingPlayer suspect = None)
   \<and> (castVotes fi clicks = Some fi1
        \<and> (\<forall>vote \<in> set (fi_votes fi). fst vote \<noteq> int (snd vote)) \<longrightarrow>
        (\<forall>vote \<in> set (fi_votes fi1). fst vote \<noteq> int (snd vote)))
   \<and> (castVotes fi clicks = Some fi1 \<and> fi_votes fi = []
        \<and> distinct (map (\<lambda>c. indexOf (fi_players fi) (fst c)) clicks) \<longrightarrow>
        length (fi_votes fi1) = length clicks)
   \<and> mostSuspected vs = bruteForceMostSuspected vs
   \<and> map_of (suspicionCounts vs) s
       = (if s \<in> snd ` set vs then Some (bruteForceCount vs s) else None)
   \<and> (analyzeVotes fi = Inr (recorded, counts, most) \<longrightarrow>
        most = bruteForceMostSuspected (fi_votes fi))
   \<and> (castVotes fi clicks = Some fi1
        \<and> (\<forall>vote \<in> set (fi_votes fi). snd vote < length (fi_players fi)) \<longrightarrow>
        analyzeVotes fi1
          = Inr (fi_votes fi1, suspicionCounts (fi_votes fi1), bruteForceMostSuspected (fi_votes fi1)))
   \<and> (votingPlayer \<in> set (fi_players fi) \<and> suspect < length (fi_players fi)
        \<and> int suspect \<noteq> indexOf (fi_players fi) votingPlayer
        \<and> updateVotesDisplay fi = None \<longrightarrow>
        (\<exists>fi2. clickSuspectOption fi votingPlayer suspect = Some (Inr fi2)
               \<and> fi_votes fi2
                   = mapSet (fi_votes fi) (indexOf (fi_players fi) votingPlayer) suspect))
   \<and> (fi_votes fi = []
        \<and> (\<forall>c \<in> set clicks. fst c \<in> set (fi_players fi) \<and> snd c < length (fi_players fi)
                                 \<and> int (snd c) \<noteq> indexOf (fi_players fi) (fst c)) \<longrightarrow>
        (\<exists>fi3. castVotes fi clicks = Some fi3
               \<and> analyzeVotes fi3
                   = Inr (fi_votes fi3, suspicionCounts (fi_votes fi3),
                          bruteForceMostSuspected (fi_votes fi3))))"
proof -
  have a: "int suspect = indexOf (fi_players fi) votingPlayer \<longrightarrow>
      clickSuspectOption fi votingPlayer suspect = None"
    using click_self_rejected by blast
  have b: "castVotes fi clicks = Some fi1
        \<and> (\<forall>vote \<in> set (fi_votes fi). fst vote \<noteq> int (snd vote)) \<longrightarrow>
        (\<forall>vote \<in> set (fi_votes fi1). fst vote \<noteq> int (snd vote))"
    using castVotes_no_self_vote by blast
  have c: "castVotes fi clicks = Some fi1 \<and> fi_votes fi = []
        \<and> distinct (map (\<lambda>c. indexOf (fi_players fi) (fst c)) clicks) \<longrightarrow>
        length (fi_votes fi1) = length clicks"
    using castVotes_count [of fi clicks fi1] by simp
  have d: "mostSuspected vs = bruteForceMostSuspected vs"
    by (rule mostSuspected_eq)
  have e: "map_of (suspicionCounts vs) s
       = (if s \<in> snd ` set vs then Some (bruteForceCount vs s) else None)"
    by (simp add: suspicionCounts_eq map_of_keyed firsts_set)
  have f: "analyzeVotes fi = Inr (recorded, counts, most) \<longrightarrow>
        most = bruteForceMostSuspected (fi_votes fi)"
    by (auto simp: analyzeVotes_def Let_def mostSuspected_eq split: option.splits)
  have g: "castVotes fi clicks = Some fi1
        \<and> (\<forall>vote \<in> set (fi_votes fi). snd vote < length (fi_players fi)) \<longrightarrow>
        analyzeVotes fi1
          = Inr (fi_votes fi1, suspicionCounts (fi_votes fi1), bruteForceMostSuspected (fi_votes fi1))"
    using castVotes_suspects [of fi clicks fi1] analyzeVotes_result [of fi1] by blast
  have h: "votingPlayer \<in> set (fi_players fi) \<and> suspect < length (fi_players fi)
        \<and> int suspect \<noteq> indexOf (fi_players fi) votingPlayer
        \<and> updateVotesDisplay fi = None \<longrightarrow>
        (\<exists>fi2. clickSuspectOption fi votingPlayer suspect = Some (Inr fi2)
               \<and> fi_votes fi2
                   = mapSet (fi_votes fi) (indexOf (fi_players fi) votingPlayer) suspect)"
    using click_possible [of votingPlayer fi suspect] click_accepted(2) by blast
  have i: "fi_votes fi = []
        \<and> (\<forall>c \<in> set clicks. fst c \<in> set (fi_players fi) \<and> snd c < length (fi_players fi)
                                 \<and> int (snd c) \<noteq> indexOf (fi_players fi) (fst c)) \<longrightarrow>
        (\<exists>fi3. castVotes fi clicks = Some fi3
               \<and> analyzeVotes fi3
                   = Inr (fi_votes fi3, suspicionCounts (fi_votes fi3),
                          bruteForceMostSuspected (fi_votes fi3)))"
  proof
    assume hyp: "fi_votes fi = []
        \<and> (\<forall>c \<in> set clicks. fst c \<in> set (fi_players fi) \<and> snd c < length (fi_players fi)
                                 \<and> int (snd c) \<noteq> indexOf (fi_players fi) (fst c))"
    then have "updateVotesDisplay fi = None"
      by (simp add: updateVotesDisplay_def)
    then obtain fi3 where fi3: "castVotes fi clicks = Some fi3"
      using castVotes_possible [of fi clicks] hyp by blast
    have "\<forall>vote \<in> set (fi_votes fi3). snd vote < length (fi_players fi3)"
      using castVotes_suspects [OF fi3] hyp by simp
    then show "\<exists>fi3. castVotes fi clicks = Some fi3
               \<and> analyzeVotes fi3
                   = Inr (fi_votes fi3, suspicionCounts (fi_votes fi3),
                          bruteForceMostSuspected (fi_votes fi3))"
      using fi3 analyzeVotes_result by blast
  qed
  show ?thesis
    using a b c d e f g h i by blast
qed

theorem suspicion_vote_tally_witness:
  "int 0 = indexOf (fi_players exampleVoting) (threePlayers ! 0)
   \<and> clickSuspectOption exampleVoting (threePlayers ! 0) 0 = None
   \<and> castVotes exampleVoting exampleClicks = Some (the (castVotes exampleVoting exampleClicks))
   \<and> fi_votes (the (castVotes exampleVoting exampleClicks)) = [(0, 1), (1, 0), (2, 1)]
   \<and> length (fi_votes (the (castVotes exampleVoting exampleClicks))) = length exampleClicks
   \<and> mostSuspected [(0, 1), (1, 0), (2, 1)] = Some 1
   \<and> bruteForceMostSuspected [(0, 1), (1, 0), (2, 1)] = Some 1
   \<and> analyzeVotes (the (castVotes exampleVoting exampleClicks))
       = Inr ([(0, 1), (1, 0), (2, 1)], [(1, 2), (0, 1)], Some 1)
   \<and> threePlayers ! 2 \<in> set (fi_players exampleVoting)
   \<and> int 1 \<noteq> indexOf (fi_players exampleVoting) (threePlayers ! 2)
   \<and> updateVotesDisplay exampleVoting = None
   \<and> (\<exists>fi2. clickSuspectOption exampleVoting (threePlayers ! 2) 1 = Some (Inr fi2)
              \<and> fi_votes fi2 = [(2, 1)])
   \<and> fi_votes exampleVoting = []
   \<and> (\<exists>fi3. castVotes exampleVoting exampleClicks = Some fi3
              \<and> analyzeVotes fi3
                  = Inr (fi_votes fi3, suspicionCounts (fi_votes fi3),
                         bruteForceMostSuspected (fi_votes fi3)))"
proof -
  have valid: "\<forall>c \<in> set exampleClicks.
          fst c \<in> set (fi_players exampleVoting) \<and> snd c < length (fi_players exampleVoting)
          \<and> int (snd c) \<noteq> indexOf (fi_players exampleVoting) (fst c)"
    by code_simp
  let ?fi1 = "the (castVotes exampleVoting exampleClicks)"
  have mem: "threePlayers ! 2 \<in> set (fi_players exampleVoting)"
    by code_simp
  have other: "int 1 \<noteq> indexOf (fi_players exampleVoting) (threePlayers ! 2)"
    by code_simp
  have pos: "indexOf (fi_players exampleVoting) (threePlayers ! 2) = 2"
    by code_simp
  have len: "length (fi_players exampleVoting) = 3"
    by code_simp
  have shown: "updateVotesDisplay exampleVoting = None"
    by code_simp
  have self: "int 0 = indexOf (fi_players exampleVoting) (threePlayers ! 0)"
    by code_simp
  have ret: "castVotes exampleVoting exampleClicks = Some ?fi1"
    by code_simp
  have recorded: "fi_votes ?fi1 = [(0, 1), (1, 0), (2, 1)]"
    by code_simp
  have empty: "fi_votes exampleVoting = []"
    by (simp add: exampleVoting_def)
  have voters: "distinct (map (\<lambda>c. indexOf (fi_players exampleVoting) (fst c)) exampleClicks)"
    by code_simp
  have most: "mostSuspected [(0, 1), (1, 0), (2, 1)] = Some 1"
    by code_simp
  have cnt: "suspicionCounts [(0, 1), (1, 0), (2, 1)] = [(1, 2), (0, 1)]"
    by code_simp
  show ?thesis
    using self ret recorded empty voters most cnt mem other pos len shown valid
      suspicion_vote_tally
        [of 0 exampleVoting "threePlayers ! 0" exampleClicks ?fi1 "[(0, 1), (1, 0), (2, 1)]"]
      suspicion_vote_tally [of 1 exampleVoting "threePlayers ! 2"]
    by simp
qed

end
